theory Spec2Isabelle
  imports Main
begin

section \<open>JavaScript values and the browser environment\<close>

text \<open>
  A nullable string as the code tests it: \<^verbatim>\<open>!token\<close>, \<^verbatim>\<open>!sessionId\<close> and
  \<^verbatim>\<open>if (data.session_id)\<close> are false for \<^verbatim>\<open>null\<close>, for \<^verbatim>\<open>undefined\<close> and for
  the empty string.
\<close>

definition truthy :: "string option \<Rightarrow> bool" where
  "truthy v = (case v of None \<Rightarrow> False | Some s \<Rightarrow> s \<noteq> [])"

text \<open>\<^verbatim>\<open>v || d\<close> on a nullable string.\<close>

definition or_else :: "string option \<Rightarrow> string \<Rightarrow> string" where
  "or_else v d = (case v of None \<Rightarrow> d | Some s \<Rightarrow> if s = [] then d else s)"

text \<open>
  \<^verbatim>\<open>String.prototype.trim\<close>. A string is its UTF-8 bytes; \<open>js_white_space\<close> lists the
  encodings of the code points that \<^verbatim>\<open>trim\<close> strips: the white space U+0009, U+000B,
  U+000C, U+0020, U+00A0, U+1680, U+2000 to U+200A, U+202F, U+205F, U+3000 and U+FEFF, and
  the line terminators U+000A, U+000D, U+2028 and U+2029. \<open>strip_leading\<close> removes
  leading encodings one at a time; its first argument bounds the number of removals, and
  the length of the string is enough, each removal taking at least one byte.
\<close>

definition js_white_space :: "string list" where
  "js_white_space =
     [[CHR 0x09], [CHR 0x0A], [CHR 0x0B], [CHR 0x0C], [CHR 0x0D], [CHR 0x20],
      [CHR 0xC2, CHR 0xA0], [CHR 0xE1, CHR 0x9A, CHR 0x80],
      [CHR 0xE2, CHR 0x80, CHR 0x80], [CHR 0xE2, CHR 0x80, CHR 0x81],
      [CHR 0xE2, CHR 0x80, CHR 0x82], [CHR 0xE2, CHR 0x80, CHR 0x83],
      [CHR 0xE2, CHR 0x80, CHR 0x84], [CHR 0xE2, CHR 0x80, CHR 0x85],
      [CHR 0xE2, CHR 0x80, CHR 0x86], [CHR 0xE2, CHR 0x80, CHR 0x87],
      [CHR 0xE2, CHR 0x80, CHR 0x88], [CHR 0xE2, CHR 0x80, CHR 0x89],
      [CHR 0xE2, CHR 0x80, CHR 0x8A], [CHR 0xE2, CHR 0x80, CHR 0xA8],
      [CHR 0xE2, CHR 0x80, CHR 0xA9], [CHR 0xE2, CHR 0x80, CHR 0xAF],
      [CHR 0xE2, CHR 0x81, CHR 0x9F], [CHR 0xE3, CHR 0x80, CHR 0x80],
      [CHR 0xEF, CHR 0xBB, CHR 0xBF]]"

fun strip_leading :: "nat \<Rightarrow> string list \<Rightarrow> string \<Rightarrow> string" where
  "strip_leading 0 ws s = s"
| "strip_leading (Suc n) ws s =
     (case find (\<lambda>w. take (length w) s = w) ws of
        None \<Rightarrow> s
      | Some w \<Rightarrow> strip_leading n ws (drop (length w) s))"

definition js_trim :: "string \<Rightarrow> string" where
  "js_trim s =
     (let a = strip_leading (length s) js_white_space s
      in rev (strip_leading (length a) (map rev js_white_space) (rev a)))"

text \<open>
  A WebSocket object: its \<^verbatim>\<open>readyState\<close> and the frames handed to \<^verbatim>\<open>send\<close> while
  it was open, in order. Sockets are objects with identity; the state keeps every socket
  ever created in a list and a reference is an index into it.
\<close>

datatype readyState = CONNECTING | OPEN | CLOSING | CLOSED

record 'f websocket =
  readyState :: readyState
  outbox :: "'f list"

definition new_WebSocket :: "'f websocket" where
  "new_WebSocket = \<lparr>readyState = CONNECTING, outbox = []\<rparr>"

definition ready :: "'f websocket list \<Rightarrow> nat \<Rightarrow> readyState option" where
  "ready ss i = (if i < length ss then Some (readyState (ss ! i)) else None)"

text \<open>The guard \<^verbatim>\<open>ws && ws.readyState === WebSocket.OPEN\<close> on a reference.\<close>

definition is_open :: "'f websocket list \<Rightarrow> nat option \<Rightarrow> bool" where
  "is_open ss r = (case r of None \<Rightarrow> False | Some i \<Rightarrow> ready ss i = Some OPEN)"

definition set_ready :: "nat \<Rightarrow> readyState \<Rightarrow> 'f websocket list \<Rightarrow> 'f websocket list" where
  "set_ready i r ss = (if i < length ss then ss[i := (ss ! i)\<lparr>readyState := r\<rparr>] else ss)"

text \<open>
  \<^verbatim>\<open>ws.send(data)\<close>: every call site runs it on an open socket (behind the guard, or
  inside \<^verbatim>\<open>onopen\<close>); on a socket that is not open nothing is transmitted.
\<close>

definition ws_send :: "nat \<Rightarrow> 'f \<Rightarrow> 'f websocket list \<Rightarrow> 'f websocket list" where
  "ws_send i f ss =
     (if ready ss i = Some OPEN then ss[i := (ss ! i)\<lparr>outbox := outbox (ss ! i) @ [f]\<rparr>] else ss)"

text \<open>
  \<^verbatim>\<open>ws.close()\<close> starts the closing handshake of a connecting or open socket and does
  nothing on one that is closing or closed; the close event comes later, as an event of
  its own.
\<close>

definition ws_close :: "nat \<Rightarrow> 'f websocket list \<Rightarrow> 'f websocket list" where
  "ws_close i ss =
     (if ready ss i = Some CONNECTING \<or> ready ss i = Some OPEN then set_ready i CLOSING ss else ss)"

text \<open>
  Timers: \<^verbatim>\<open>setTimeout(cb, d)\<close> registers callback \<open>cb\<close> due \<open>d\<close> milliseconds from now
  under a fresh positive id; \<^verbatim>\<open>clearTimeout(id)\<close> removes it if it is still pending.
\<close>

record 'cb timer =
  tid :: nat
  due :: nat
  callback :: 'cb

text \<open>
  What every component that owns a transport sees of the browser: the clock, the token
  in local storage, the sockets, the pending timers, and its own \<^verbatim>\<open>wsRef\<close>. \<open>reloads\<close>
  counts the calls of \<^verbatim>\<open>window.location.reload()\<close>, each of which ends the page, and
  its transports with it, once the running handlers have returned.
\<close>

record ('f, 'cb) browser =
  now :: nat
  token :: "string option"
  sockets :: "'f websocket list"
  timers :: "'cb timer list"
  timer_seq :: nat
  wsRef :: "nat option"
  reloads :: nat

definition setTimeout :: "'cb \<Rightarrow> nat \<Rightarrow> ('f, 'cb, 'z) browser_scheme \<Rightarrow> ('f, 'cb, 'z) browser_scheme" where
  "setTimeout cb d b =
     b\<lparr>timers := timers b @ [\<lparr>tid = Suc (timer_seq b), due = now b + d, callback = cb\<rparr>],
       timer_seq := Suc (timer_seq b)\<rparr>"

definition clearTimeout :: "nat \<Rightarrow> ('f, 'cb, 'z) browser_scheme \<Rightarrow> ('f, 'cb, 'z) browser_scheme" where
  "clearTimeout i b = b\<lparr>timers := filter (\<lambda>t. tid t \<noteq> i) (timers b)\<rparr>"

text \<open>The timers due at time \<open>n\<close>, earliest first (ties in registration order), and the rest.\<close>

definition due_timers :: "nat \<Rightarrow> 'cb timer list \<Rightarrow> 'cb timer list" where
  "due_timers n ts = sort_key due (filter (\<lambda>t. due t \<le> n) ts)"

definition waiting_timers :: "nat \<Rightarrow> 'cb timer list \<Rightarrow> 'cb timer list" where
  "waiting_timers n ts = filter (\<lambda>t. n < due t) ts"

section \<open>The chat store (stores/chatStore.ts)\<close>

datatype role = User | Assistant

record attachment =
  filename :: string
  path :: string

text \<open>
  A message of the history. \<open>msg_id\<close> is the value of \<^verbatim>\<open>Date.now()\<close> whose decimal
  rendering is the id, \<open>msg_timestamp\<close> the instant that \<^verbatim>\<open>toISOString\<close> renders.
\<close>

record message =
  msg_id :: nat
  msg_role :: role
  msg_content :: string
  msg_attachments :: "attachment list"
  msg_timestamp :: nat

text \<open>A stream chunk; \<open>ctype\<close> is its field \<^verbatim>\<open>type\<close>, any string the wire delivers.\<close>

record StreamChunk =
  content :: string
  ctype :: string

text \<open>
  What the chat transport puts on the wire in \<^verbatim>\<open>sendMessage\<close>: the object given to
  \<^verbatim>\<open>JSON.stringify\<close> (its constant field \<^verbatim>\<open>type: "message"\<close> left out).
\<close>

record outbound =
  out_content :: string
  out_attachments :: "attachment list"
  out_session_id :: "string option"
  is_first_message :: bool

text \<open>The parsed inbound event, by its field \<^verbatim>\<open>type\<close>; \<open>Other\<close> is any other type.\<close>

datatype inbound =
    Chunk string "string option"
  | Done "string option"
  | SessionId string
  | Error string
  | Other

text \<open>The callbacks the chat page hands to \<^verbatim>\<open>setTimeout\<close>.\<close>

datatype chat_callback = Reconnect | DismissUploadError

text \<open>A pending attachment of the composer; a preview URL is the id of an object URL.\<close>

record pending_attachment =
  att_filename :: string
  att_path :: string
  previewUrl :: "nat option"

text \<open>
  The state of the chat page: the browser, the store (\<^verbatim>\<open>useChatStore\<close>, without its
  session list, which the transport never touches), the two refs of \<^verbatim>\<open>useWebSocket\<close>
  and the state of the composer (\<^verbatim>\<open>InputArea\<close>). \<open>upload_calls\<close> logs the files given to
  \<^verbatim>\<open>api.uploadFile\<close>, \<open>revoked\<close> the object URLs given to \<^verbatim>\<open>URL.revokeObjectURL\<close>, and
  \<open>blob_seq\<close> counts the object URLs created.
\<close>

record chat_page = "(outbound, chat_callback) browser" +
  currentSessionId :: "string option"
  messages :: "message list"
  streaming :: bool
  streamChunks :: "StreamChunk list"
  sentFirstRef :: bool
  input :: string
  attachments :: "pending_attachment list"
  uploading :: bool
  uploadProgress :: nat
  uploadFileName :: string
  uploadError :: "string option"
  upload_calls :: "string list"
  blob_seq :: nat
  revoked :: "nat list"

definition setCurrentSession :: "string option \<Rightarrow> chat_page \<Rightarrow> chat_page" where
  "setCurrentSession i c = c\<lparr>currentSessionId := i\<rparr>"

definition addMessage :: "message \<Rightarrow> chat_page \<Rightarrow> chat_page" where
  "addMessage m c = c\<lparr>messages := messages c @ [m]\<rparr>"

definition setStreaming :: "bool \<Rightarrow> chat_page \<Rightarrow> chat_page" where
  "setStreaming b c = c\<lparr>streaming := b\<rparr>"

definition appendStreamChunk :: "StreamChunk \<Rightarrow> chat_page \<Rightarrow> chat_page" where
  "appendStreamChunk k c = c\<lparr>streamChunks := streamChunks c @ [k]\<rparr>"

definition resetStreamChunks :: "chat_page \<Rightarrow> chat_page" where
  "resetStreamChunks c = c\<lparr>streamChunks := []\<rparr>"

section \<open>The chat transport (useWebSocket)\<close>

text \<open>
  The content computed in the \<^verbatim>\<open>done\<close> case: \<^verbatim>\<open>chunks.find\<close> for a chunk of type
  \<^verbatim>\<open>result\<close>, else the joined contents of the chunks of type \<^verbatim>\<open>text\<close>.
\<close>

definition finalContent :: "StreamChunk list \<Rightarrow> string" where
  "finalContent chunks =
     (case find (\<lambda>k. ctype k = ''result'') chunks of
        Some resultChunk \<Rightarrow> content resultChunk
      | None \<Rightarrow> concat (map content (filter (\<lambda>k. ctype k = ''text'') chunks)))"

definition assistant_message :: "nat \<Rightarrow> string \<Rightarrow> message" where
  "assistant_message t s =
     \<lparr>msg_id = t, msg_role = Assistant, msg_content = s, msg_attachments = [], msg_timestamp = t\<rparr>"

definition user_message :: "nat \<Rightarrow> string \<Rightarrow> attachment list \<Rightarrow> message" where
  "user_message t s atts =
     \<lparr>msg_id = t, msg_role = User, msg_content = s, msg_attachments = atts, msg_timestamp = t\<rparr>"

text \<open>\<^verbatim>\<open>ws.onmessage\<close>, after \<^verbatim>\<open>JSON.parse\<close>.\<close>

fun onmessage :: "inbound \<Rightarrow> chat_page \<Rightarrow> chat_page" where
  "onmessage (Chunk s chunk_type) c =
     appendStreamChunk \<lparr>content = s, ctype = or_else chunk_type ''text''\<rparr> c"
| "onmessage (Done session_id) c =
     (let c1 = setStreaming False c;
          chunks = streamChunks c1;
          s = finalContent chunks;
          c2 = (if s \<noteq> [] then addMessage (assistant_message (now c1) s) c1 else c1);
          c3 = resetStreamChunks c2
      in if truthy session_id then setCurrentSession session_id c3 else c3)"
| "onmessage (SessionId i) c = (setCurrentSession (Some i) c)\<lparr>sentFirstRef := True\<rparr>"
| "onmessage (Error m) c =
     addMessage (assistant_message (now c) (''Error: '' @ m)) (resetStreamChunks (setStreaming False c))"
| "onmessage Other c = c"

text \<open>\<^verbatim>\<open>ws.onclose\<close>: the reconnect is scheduled and its timer id dropped.\<close>

definition onclose :: "chat_page \<Rightarrow> chat_page" where
  "onclose c = setTimeout Reconnect 3000 c"

definition connect :: "chat_page \<Rightarrow> chat_page" where
  "connect c =
     (if \<not> truthy (token c) then c
      else c\<lparr>sockets := sockets c @ [new_WebSocket], wsRef := Some (length (sockets c))\<rparr>)"

definition sendMessage :: "string \<Rightarrow> attachment list \<Rightarrow> chat_page \<Rightarrow> chat_page" where
  "sendMessage s atts c =
     (case wsRef c of
        None \<Rightarrow> c
      | Some i \<Rightarrow>
          if ready (sockets c) i \<noteq> Some OPEN then c
          else
            let sessionId = currentSessionId c;
                isFirstMessage = (\<not> truthy sessionId \<or> \<not> sentFirstRef c);
                c1 = addMessage (user_message (now c) s atts) c;
                c2 = setStreaming True c1;
                c3 = resetStreamChunks c2
            in c3\<lparr>sockets := ws_send i
                     \<lparr>out_content = s, out_attachments = atts, out_session_id = sessionId,
                      is_first_message = isFirstMessage\<rparr> (sockets c3)\<rparr>)"

definition disconnect :: "chat_page \<Rightarrow> chat_page" where
  "disconnect c =
     (case wsRef c of
        None \<Rightarrow> c
      | Some i \<Rightarrow> c\<lparr>sockets := ws_close i (sockets c), wsRef := None\<rparr>)"

definition resetFirstMessage :: "chat_page \<Rightarrow> chat_page" where
  "resetFirstMessage c = c\<lparr>sentFirstRef := False\<rparr>"

section \<open>The composer (InputArea)\<close>

record js_file =
  file_name :: string
  file_type :: string

text \<open>
  What \<^verbatim>\<open>api.uploadFile\<close> returns, and how the awaited call ends: resolved with the
  record of a 2xx response; rejected on a 401 response, after \<^verbatim>\<open>xhr.onload\<close> has removed
  the token and reloaded the page (\<open>Unauthorized\<close>); or rejected on any other status or
  on a network error (\<open>Rejected\<close>). \<open>uploadFile_settled\<close> is what the call itself does to
  the browser as it ends.
\<close>

record upload_record =
  up_filename :: string
  up_path :: string
  up_size :: nat
  up_content_type :: string

datatype upload_outcome = Resolved upload_record | Unauthorized | Rejected

definition uploadFile_settled ::
  "upload_outcome \<Rightarrow> ('f, 'cb, 'z) browser_scheme \<Rightarrow> ('f, 'cb, 'z) browser_scheme" where
  "uploadFile_settled outcome b =
     (case outcome of
        Unauthorized \<Rightarrow> b\<lparr>token := None, reloads := Suc (reloads b)\<rparr>
      | _ \<Rightarrow> b)"

text \<open>
  One file of an upload: the file, the percentages its progress callback reports and how
  the call ends.
\<close>

record upload =
  up_file :: js_file
  up_progress :: "nat list"
  up_outcome :: upload_outcome

definition isImageFile :: "js_file \<Rightarrow> bool" where
  "isImageFile f = (take 6 (file_type f) = ''image/'')"

definition revokeObjectURL :: "nat \<Rightarrow> chat_page \<Rightarrow> chat_page" where
  "revokeObjectURL u c = c\<lparr>revoked := revoked c @ [u]\<rparr>"

text \<open>The notice of a failed upload: a fixed prefix (UTF-8) and the file's name.\<close>

definition upload_failed_notice :: "string \<Rightarrow> string" where
  "upload_failed_notice n =
     [CHR 0xE4, CHR 0xB8, CHR 0x8A, CHR 0xE4, CHR 0xBC, CHR 0xA0, CHR 0xE5, CHR 0xA4, CHR 0xB1,
      CHR 0xE8, CHR 0xB4, CHR 0xA5] @ '': '' @ n"

text \<open>
  \<^verbatim>\<open>handleSend\<close>. The prop \<^verbatim>\<open>onSend\<close> is a parameter; \<^verbatim>\<open>streaming\<close> is read from the
  store. The two early returns leave everything as it is.
\<close>

definition handleSend ::
  "(string \<Rightarrow> attachment list \<Rightarrow> chat_page \<Rightarrow> chat_page) \<Rightarrow> chat_page \<Rightarrow> chat_page" where
  "handleSend onSend c =
     (let txt = js_trim (input c) in
      if txt = [] \<and> attachments c = [] then c
      else if streaming c then c
      else
        let c1 = onSend txt
                   (map (\<lambda>a. \<lparr>filename = att_filename a, path = att_path a\<rparr>) (attachments c)) c;
            c2 = c1\<lparr>input := []\<rparr>;
            c3 = fold (\<lambda>a s. case previewUrl a of Some u \<Rightarrow> revokeObjectURL u s | None \<Rightarrow> s)
                   (attachments c) c2
        in c3\<lparr>attachments := []\<rparr>)"

text \<open>
  One turn of the loop of the composer's \<^verbatim>\<open>handleFileUpload\<close>: up to the call of
  \<^verbatim>\<open>api.uploadFile\<close> (\<open>upload_started\<close>, which also yields the preview URL), the progress
  reports, and what follows the awaited call (\<open>upload_settled\<close>: the rest of the
  \<^verbatim>\<open>try\<close> block, or the \<^verbatim>\<open>catch\<close> block).
\<close>

definition upload_started :: "js_file \<Rightarrow> chat_page \<Rightarrow> nat option \<times> chat_page" where
  "upload_started f c =
     (let c1 = c\<lparr>uploadFileName := file_name f, uploadProgress := 0\<rparr>;
          url = (if isImageFile f then Some (Suc (blob_seq c1)) else None);
          c2 = (if isImageFile f then c1\<lparr>blob_seq := Suc (blob_seq c1)\<rparr> else c1)
      in (url, c2\<lparr>upload_calls := upload_calls c2 @ [file_name f]\<rparr>))"

definition upload_settled :: "js_file \<Rightarrow> nat option \<Rightarrow> upload_outcome \<Rightarrow> chat_page \<Rightarrow> chat_page" where
  "upload_settled f url outcome c =
     (let c0 = uploadFile_settled outcome c in
      case outcome of
        Resolved r \<Rightarrow>
          c0\<lparr>attachments := attachments c0 @
               [\<lparr>att_filename = up_filename r, att_path = up_path r, previewUrl = url\<rparr>]\<rparr>
      | _ \<Rightarrow>
          let c1 = (case url of Some v \<Rightarrow> revokeObjectURL v c0 | None \<Rightarrow> c0);
              c2 = c1\<lparr>uploadError := Some (upload_failed_notice (file_name f))\<rparr>
          in setTimeout DismissUploadError 3000 c2)"

definition upload_one :: "upload \<Rightarrow> chat_page \<Rightarrow> chat_page" where
  "upload_one u c =
     (let (url, c1) = upload_started (up_file u) c;
          c2 = (if up_progress u = [] then c1 else c1\<lparr>uploadProgress := last (up_progress u)\<rparr>)
      in upload_settled (up_file u) url (up_outcome u) c2)"

definition handleFileUpload :: "upload list \<Rightarrow> chat_page \<Rightarrow> chat_page" where
  "handleFileUpload files c =
     (if files = [] then c
      else
        let c1 = c\<lparr>uploading := True, uploadError := None\<rparr>;
            c2 = fold upload_one files c1
        in c2\<lparr>uploading := False, uploadProgress := 0, uploadFileName := []\<rparr>)"

section \<open>The events of the chat page\<close>

definition chat_fire :: "chat_callback \<Rightarrow> chat_page \<Rightarrow> chat_page" where
  "chat_fire cb c = (case cb of Reconnect \<Rightarrow> connect c | DismissUploadError \<Rightarrow> c\<lparr>uploadError := None\<rparr>)"

text \<open>
  What can happen to the page: calls of the four functions the hook returns (a
  submission is a call of \<^verbatim>\<open>sendMessage\<close>), the events the browser fires on a socket
  (open on a connecting socket, a message on an open one, close on one not yet closed),
  time passing, and the user typing into the composer and uploading files. When time
  passes, the timers that fall due run in order.
\<close>

datatype chat_event =
    CallConnect
  | CallDisconnect
  | CallResetFirstMessage
  | CallSendMessage string "attachment list"
  | WsOpen nat
  | WsMessage nat inbound
  | WsClose nat
  | Advance nat
  | TypeInput string
  | UploadFiles "upload list"

fun chat_step :: "chat_event \<Rightarrow> chat_page \<Rightarrow> chat_page" where
  "chat_step CallConnect c = connect c"
| "chat_step CallDisconnect c = disconnect c"
| "chat_step CallResetFirstMessage c = resetFirstMessage c"
| "chat_step (CallSendMessage s atts) c = sendMessage s atts c"
| "chat_step (WsOpen i) c =
     (if ready (sockets c) i = Some CONNECTING then c\<lparr>sockets := set_ready i OPEN (sockets c)\<rparr> else c)"
| "chat_step (WsMessage i d) c =
     (if ready (sockets c) i = Some OPEN then onmessage d c else c)"
| "chat_step (WsClose i) c =
     (if ready (sockets c) i = None \<or> ready (sockets c) i = Some CLOSED then c
      else onclose (c\<lparr>sockets := set_ready i CLOSED (sockets c)\<rparr>))"
| "chat_step (Advance d) c =
     (let t = now c + d
      in fold chat_fire (map callback (due_timers t (timers c)))
           (c\<lparr>now := t, timers := waiting_timers t (timers c)\<rparr>))"
| "chat_step (TypeInput s) c = c\<lparr>input := s\<rparr>"
| "chat_step (UploadFiles files) c = handleFileUpload files c"

definition chat_run :: "chat_event list \<Rightarrow> chat_page \<Rightarrow> chat_page" where
  "chat_run evs c = fold chat_step evs c"

text \<open>The page before anything happened, with \<open>tok\<close> in local storage.\<close>

definition chat_init :: "string option \<Rightarrow> chat_page" where
  "chat_init tok =
     \<lparr>now = 0, token = tok, sockets = [], timers = [], timer_seq = 0, wsRef = None, reloads = 0,
      currentSessionId = None, messages = [], streaming = False, streamChunks = [],
      sentFirstRef = False, input = [], attachments = [], uploading = False,
      uploadProgress = 0, uploadFileName = [], uploadError = None, upload_calls = [],
      blob_seq = 0, revoked = []\<rparr>"

section \<open>The shell bridge (ClaudeTerminal)\<close>

text \<open>
  What the shell transport sends: the resize control message (the object given to
  \<^verbatim>\<open>JSON.stringify\<close>), a string, or the bytes of an array buffer.
\<close>

datatype frame = ResizeFrame nat nat | TextFrame string | BinaryFrame "nat list"

datatype payload = Str string | Bytes "nat list"

datatype conn_status = Connecting | Connected | Disconnected

text \<open>The terminal: its dimensions and what was written to it, in order.\<close>

record xterm =
  cols :: nat
  rows :: nat
  screen :: "payload list"

datatype shell_callback = DoFit | ShellConnect

text \<open>
  The state of the component: the browser, its refs and state variables, the timers
  \<^verbatim>\<open>t1\<close>, \<^verbatim>\<open>t2\<close>, \<^verbatim>\<open>t3\<close> of the mounted effect, whether its resize observer is
  connected, and \<open>geometry\<close>: the dimensions \<^verbatim>\<open>fitAddon.fit()\<close> gives the terminal in the
  present layout of the container (\<open>None\<close> when the call throws). \<open>shell_upload_calls\<close>
  logs the files given to \<^verbatim>\<open>api.uploadFile\<close>.
\<close>

record shell = "(frame, shell_callback) browser" +
  termRef :: "xterm option"
  reconnectTimer :: "nat option"
  status :: conn_status
  fitTimers :: "nat list"
  observing :: bool
  geometry :: "(nat \<times> nat) option"
  shell_uploading :: bool
  uploadInfo :: string
  mobileInput :: string
  shell_upload_calls :: "string list"

text \<open>\<^verbatim>\<open>const term = termRef.current; if (term) term.write(p)\<close>.\<close>

definition term_write :: "payload \<Rightarrow> shell \<Rightarrow> shell" where
  "term_write p s =
     (case termRef s of None \<Rightarrow> s | Some t \<Rightarrow> s\<lparr>termRef := Some (t\<lparr>screen := screen t @ [p]\<rparr>)\<rparr>)"

text \<open>\<^verbatim>\<open>const ws = wsRef.current; if (ws && ws.readyState === WebSocket.OPEN) ws.send(f)\<close>.\<close>

definition guarded_send :: "frame \<Rightarrow> shell \<Rightarrow> shell" where
  "guarded_send f s =
     (case wsRef s of
        None \<Rightarrow> s
      | Some i \<Rightarrow> if ready (sockets s) i = Some OPEN then s\<lparr>sockets := ws_send i f (sockets s)\<rparr> else s)"

definition sendCommand :: "string \<Rightarrow> shell \<Rightarrow> shell" where
  "sendCommand cmd s = guarded_send (TextFrame cmd) s"

definition sendKey :: "string \<Rightarrow> shell \<Rightarrow> shell" where
  "sendKey sq s = guarded_send (TextFrame sq) s"

definition handleMobileSend :: "shell \<Rightarrow> shell" where
  "handleMobileSend s =
     (let txt = js_trim (mobileInput s) in
      if txt = [] then s
      else (guarded_send (TextFrame (txt @ [CHR 0x0A])) s)\<lparr>mobileInput := []\<rparr>)"

text \<open>The two listeners of the terminal: typed data, and binary data byte by byte.\<close>

definition onData :: "string \<Rightarrow> shell \<Rightarrow> shell" where
  "onData d s = guarded_send (TextFrame d) s"

definition onBinary :: "string \<Rightarrow> shell \<Rightarrow> shell" where
  "onBinary d s =
     (case wsRef s of
        None \<Rightarrow> s
      | Some i \<Rightarrow>
          if ready (sockets s) i = Some OPEN
          then s\<lparr>sockets := ws_send i (BinaryFrame (map (\<lambda>ch. of_char ch mod 256) d)) (sockets s)\<rparr>
          else s)"

text \<open>
  The shell's \<^verbatim>\<open>handleFileUpload\<close>, split at its \<^verbatim>\<open>await\<close>: the call of
  \<^verbatim>\<open>api.uploadFile\<close>, and what runs once it has settled (the \<^verbatim>\<open>try\<close> or the
  \<^verbatim>\<open>catch\<close> block, then \<^verbatim>\<open>finally\<close>).
\<close>

definition upload_failed_line :: "string \<Rightarrow> string" where
  "upload_failed_line n =
     [CHR 0x0D, CHR 0x0A, CHR 0x1B] @ ''[31m[Upload failed: '' @ n @ '']'' @ [CHR 0x1B] @ ''[0m''"

definition shell_upload_started :: "js_file \<Rightarrow> shell \<Rightarrow> shell" where
  "shell_upload_started f s =
     s\<lparr>shell_uploading := True, uploadInfo := file_name f,
       shell_upload_calls := shell_upload_calls s @ [file_name f]\<rparr>"

definition shell_upload_settled :: "js_file \<Rightarrow> upload_outcome \<Rightarrow> shell \<Rightarrow> shell" where
  "shell_upload_settled f outcome s =
     (let s0 = uploadFile_settled outcome s;
          s1 = (case outcome of
                  Resolved r \<Rightarrow> guarded_send (TextFrame (up_path r)) s0
                | _ \<Rightarrow> term_write (Str (upload_failed_line (file_name f))) s0)
      in s1\<lparr>shell_uploading := False, uploadInfo := []\<rparr>)"

text \<open>\<^verbatim>\<open>connect\<close> of the shell and the four handlers it installs on the new socket \<open>i\<close>.\<close>

definition shell_connect :: "shell \<Rightarrow> shell" where
  "shell_connect s =
     (if \<not> truthy (token s) \<or> termRef s = None then s
      else s\<lparr>status := Connecting, sockets := sockets s @ [new_WebSocket],
             wsRef := Some (length (sockets s))\<rparr>)"

definition shell_onopen :: "nat \<Rightarrow> shell \<Rightarrow> shell" where
  "shell_onopen i s =
     (let s1 = s\<lparr>status := Connected\<rparr> in
      case termRef s1 of
        None \<Rightarrow> s1
      | Some t \<Rightarrow> s1\<lparr>sockets := ws_send i (ResizeFrame (cols t) (rows t)) (sockets s1)\<rparr>)"

definition shell_onmessage :: "payload \<Rightarrow> shell \<Rightarrow> shell" where
  "shell_onmessage d s = term_write d s"

definition disconnected_line :: string where
  "disconnected_line =
     [CHR 0x0D, CHR 0x0A, CHR 0x1B] @ ''[33m[Disconnected. Reconnecting...]'' @ [CHR 0x1B] @ ''[0m'' @
     [CHR 0x0D, CHR 0x0A]"

definition RECONNECT_DELAY :: nat where
  "RECONNECT_DELAY = 3000"

definition shell_onclose :: "shell \<Rightarrow> shell" where
  "shell_onclose s =
     (let s1 = s\<lparr>status := Disconnected\<rparr>;
          s2 = term_write (Str disconnected_line) s1;
          s3 = setTimeout ShellConnect RECONNECT_DELAY s2
      in s3\<lparr>reconnectTimer := Some (timer_seq s3)\<rparr>)"

definition shell_onerror :: "nat \<Rightarrow> shell \<Rightarrow> shell" where
  "shell_onerror i s = s\<lparr>sockets := ws_close i (sockets s)\<rparr>"

text \<open>
  \<^verbatim>\<open>doFit\<close>, which is also the body of the resize observer's callback: fit the terminal
  to the container, then send its dimensions if the socket is open and both are non-zero.
  An exception of \<^verbatim>\<open>fit\<close> is swallowed. The closure runs only while the terminal is
  mounted (the cleanup clears its timers and disconnects its observer).
\<close>

definition doFit :: "shell \<Rightarrow> shell" where
  "doFit s =
     (case termRef s of
        None \<Rightarrow> s
      | Some t \<Rightarrow>
          (case geometry s of
             None \<Rightarrow> s
           | Some (c, r) \<Rightarrow>
               let t1 = t\<lparr>cols := c, rows := r\<rparr>;
                   s1 = s\<lparr>termRef := Some t1\<rparr>
               in if cols t1 \<noteq> 0 \<and> rows t1 \<noteq> 0
                  then guarded_send (ResizeFrame (cols t1) (rows t1)) s1 else s1))"

text \<open>
  The effect that mounts the terminal, its container being there (a new terminal has 80
  columns and 24 rows), and its cleanup.
\<close>

definition mount :: "shell \<Rightarrow> shell" where
  "mount s =
     (let s1 = s\<lparr>termRef := Some \<lparr>cols = 80, rows = 24, screen = []\<rparr>\<rparr>;
          s2 = doFit s1;
          s3 = setTimeout DoFit 100 s2;
          s4 = setTimeout DoFit 500 s3;
          s5 = setTimeout DoFit 1500 s4;
          s6 = s5\<lparr>fitTimers := [timer_seq s3, timer_seq s4, timer_seq s5]\<rparr>;
          s7 = shell_connect s6
      in s7\<lparr>observing := True\<rparr>)"

definition unmount :: "shell \<Rightarrow> shell" where
  "unmount s =
     (let s1 = fold clearTimeout (fitTimers s) s;
          s2 = s1\<lparr>observing := False\<rparr>;
          s3 = (case reconnectTimer s2 of None \<Rightarrow> s2 | Some i \<Rightarrow> clearTimeout i s2);
          s4 = (case wsRef s3 of None \<Rightarrow> s3 | Some i \<Rightarrow> s3\<lparr>sockets := ws_close i (sockets s3)\<rparr>)
      in s4\<lparr>wsRef := None, termRef := None\<rparr>)"

section \<open>The events of the shell bridge\<close>

definition shell_fire :: "shell_callback \<Rightarrow> shell \<Rightarrow> shell" where
  "shell_fire cb s = (case cb of DoFit \<Rightarrow> doFit s | ShellConnect \<Rightarrow> shell_connect s)"

text \<open>
  What can happen to the component: it mounts and unmounts; the browser fires open,
  message, close and error on a socket; time passes; the container changes its geometry
  (the observer's callback runs while it is connected); the user types into the terminal,
  presses a key of the key row, sends from the input bar, or a command arrives through
  the imperative handle; an upload starts and settles.
\<close>

datatype shell_event =
    Mount
  | Unmount
  | SockOpen nat
  | SockMessage nat payload
  | SockClose nat
  | SockError nat
  | Elapse nat
  | Resized "(nat \<times> nat) option"
  | TermData string
  | TermBinary string
  | CallSendCommand string
  | PressKey string
  | MobileType string
  | MobileSend
  | UploadStart js_file
  | UploadSettle js_file upload_outcome

fun shell_step :: "shell_event \<Rightarrow> shell \<Rightarrow> shell" where
  "shell_step Mount s = mount s"
| "shell_step Unmount s = unmount s"
| "shell_step (SockOpen i) s =
     (if ready (sockets s) i = Some CONNECTING
      then shell_onopen i (s\<lparr>sockets := set_ready i OPEN (sockets s)\<rparr>) else s)"
| "shell_step (SockMessage i d) s =
     (if ready (sockets s) i = Some OPEN then shell_onmessage d s else s)"
| "shell_step (SockClose i) s =
     (if ready (sockets s) i = None \<or> ready (sockets s) i = Some CLOSED then s
      else shell_onclose (s\<lparr>sockets := set_ready i CLOSED (sockets s)\<rparr>))"
| "shell_step (SockError i) s =
     (if ready (sockets s) i = None \<or> ready (sockets s) i = Some CLOSED then s
      else shell_onerror i s)"
| "shell_step (Elapse d) s =
     (let t = now s + d
      in fold shell_fire (map callback (due_timers t (timers s)))
           (s\<lparr>now := t, timers := waiting_timers t (timers s)\<rparr>))"
| "shell_step (Resized g) s =
     (let s1 = s\<lparr>geometry := g\<rparr> in if observing s1 then doFit s1 else s1)"
| "shell_step (TermData d) s = onData d s"
| "shell_step (TermBinary d) s = onBinary d s"
| "shell_step (CallSendCommand cmd) s = sendCommand cmd s"
| "shell_step (PressKey sq) s = sendKey sq s"
| "shell_step (MobileType v) s = s\<lparr>mobileInput := v\<rparr>"
| "shell_step MobileSend s = handleMobileSend s"
| "shell_step (UploadStart f) s = shell_upload_started f s"
| "shell_step (UploadSettle f outcome) s = shell_upload_settled f outcome s"

definition shell_run :: "shell_event list \<Rightarrow> shell \<Rightarrow> shell" where
  "shell_run evs s = fold shell_step evs s"

text \<open>The component before it mounts, with \<open>tok\<close> in local storage and layout \<open>g\<close>.\<close>

definition shell_init :: "string option \<Rightarrow> (nat \<times> nat) option \<Rightarrow> shell" where
  "shell_init tok g =
     \<lparr>now = 0, token = tok, sockets = [], timers = [], timer_seq = 0, wsRef = None, reloads = 0,
      termRef = None, reconnectTimer = None, status = Disconnected, fitTimers = [],
      observing = False, geometry = g, shell_uploading = False, uploadInfo = [],
      mobileInput = [], shell_upload_calls = []\<rparr>"

section \<open>Notions of the specification\<close>

text \<open>
  The concatenation, in arrival order and with no separator, of the content of every
  chunk of type \<^verbatim>\<open>text\<close>.
\<close>

fun joined_text :: "StreamChunk list \<Rightarrow> string" where
  "joined_text [] = []"
| "joined_text (k # ks) = (if ctype k = ''text'' then content k @ joined_text ks else joined_text ks)"

text \<open>
  The finalization rule in the specification's words: the content of the last chunk of
  type \<^verbatim>\<open>result\<close> if there is one, else the joined text.
\<close>

definition specified_content :: "StreamChunk list \<Rightarrow> string" where
  "specified_content chunks =
     (let rs = filter (\<lambda>k. ctype k = ''result'') chunks
      in if rs \<noteq> [] then content (last rs) else joined_text chunks)"

text \<open>
  Invariant (2) of the data model, in the direction used below: the Aggregation
  Buffer holds chunks only while the transport is streaming.
\<close>

definition buffer_inv :: "chat_page \<Rightarrow> bool" where
  "buffer_inv c = (streamChunks c \<noteq> [] \<longrightarrow> streaming c)"

text \<open>
  A run in which the remote side keeps to the exchange: every \<^verbatim>\<open>chunk\<close> event is
  delivered while the page is streaming.
\<close>

fun chunk_delivered :: "chat_page \<Rightarrow> chat_event \<Rightarrow> bool" where
  "chunk_delivered c (WsMessage i (Chunk s t)) = (ready (sockets c) i = Some OPEN)"
| "chunk_delivered c ev = False"

fun chunks_while_streaming :: "chat_event list \<Rightarrow> chat_page \<Rightarrow> bool" where
  "chunks_while_streaming [] c = True"
| "chunks_while_streaming (ev # evs) c =
     ((chunk_delivered c ev \<longrightarrow> streaming c) \<and> chunks_while_streaming evs (chat_step ev c))"

text \<open>
  The shell bridge once it has mounted in a layout of 120 by 40 cells with a token in
  local storage and its socket has opened, before any timer has fired.
\<close>

definition mounted_open :: shell where
  "mounted_open =
     \<lparr>now = 0, token = Some ''t'',
      sockets = [\<lparr>readyState = OPEN, outbox = [ResizeFrame 120 40]\<rparr>],
      timers =
        [\<lparr>tid = 1, due = 100, callback = DoFit\<rparr>,
         \<lparr>tid = 2, due = 500, callback = DoFit\<rparr>,
         \<lparr>tid = 3, due = 1500, callback = DoFit\<rparr>],
      timer_seq = 3, wsRef = Some 0, reloads = 0,
      termRef = Some \<lparr>cols = 120, rows = 40, screen = []\<rparr>,
      reconnectTimer = None, status = Connected, fitTimers = [1, 2, 3],
      observing = True, geometry = Some (120, 40), shell_uploading = False, uploadInfo = [],
      mobileInput = [], shell_upload_calls = []\<rparr>"

section \<open>How an upload call ends\<close>

lemma uploadFile_settled_simps [simp]:
  "uploadFile_settled (Resolved r) b = b"
  "uploadFile_settled Rejected b = b"
  "uploadFile_settled Unauthorized b = b\<lparr>token := None, reloads := Suc (reloads b)\<rparr>"
  by (simp_all add: uploadFile_settled_def)

section \<open>Stream finalization\<close>

lemma find_first: "\<forall>k\<in>set pre. \<not> P k \<Longrightarrow> P r \<Longrightarrow> find P (pre @ r # post) = Some r"
  by (induction pre) auto

lemma find_none: "\<forall>k\<in>set xs. \<not> P k \<Longrightarrow> find P xs = None"
  by (induction xs) auto

lemma joined_text_concat:
  "concat (map content (filter (\<lambda>k. ctype k = ''text'') chunks)) = joined_text chunks"
  by (induction chunks) auto

lemma messages_done:
  "messages (onmessage (Done sid) c) =
     (if finalContent (streamChunks c) = [] then messages c
      else messages c @ [assistant_message (now c) (finalContent (streamChunks c))])"
  by (simp add: Let_def setStreaming_def addMessage_def resetStreamChunks_def setCurrentSession_def)

lemma chunks_done: "streamChunks (onmessage (Done sid) c) = []"
  by (simp add: Let_def setStreaming_def addMessage_def resetStreamChunks_def setCurrentSession_def)

text \<open>
  C1, as amended. On a \<^verbatim>\<open>done\<close> event the finalized content is the content of the
  \<^emph>\<open>first\<close> chunk of type \<^verbatim>\<open>result\<close> in the buffer, verbatim, whatever comes before or
  after it; with no such chunk it is the concatenation, in arrival order and with no
  separator, of the content of every chunk of type \<^verbatim>\<open>text\<close>. A message with that content
  is appended to the history unless the content is empty, and the buffer is cleared.
\<close>

theorem done_finalization:
  "(ctype r = ''result'' \<and> (\<forall>k\<in>set pre. ctype k \<noteq> ''result'')
      \<longrightarrow> finalContent (pre @ r # post) = content r)
   \<and> ((\<forall>k\<in>set chunks. ctype k \<noteq> ''result'') \<longrightarrow> finalContent chunks = joined_text chunks)
   \<and> messages (onmessage (Done sid) c) =
         (if finalContent (streamChunks c) = [] then messages c
          else messages c @ [assistant_message (now c) (finalContent (streamChunks c))])
   \<and> streamChunks (onmessage (Done sid) c) = []"
proof (intro conjI impI)
  assume "ctype r = ''result'' \<and> (\<forall>k\<in>set pre. ctype k \<noteq> ''result'')"
  then have "find (\<lambda>k. ctype k = ''result'') (pre @ r # post) = Some r"
    by (simp add: find_first)
  then show "finalContent (pre @ r # post) = content r"
    by (simp add: finalContent_def)
next
  assume "\<forall>k\<in>set chunks. ctype k \<noteq> ''result''"
  then have "find (\<lambda>k. ctype k = ''result'') chunks = None"
    by (simp add: find_none)
  then show "finalContent chunks = joined_text chunks"
    by (simp add: finalContent_def joined_text_concat)
next
  show "messages (onmessage (Done sid) c) =
          (if finalContent (streamChunks c) = [] then messages c
           else messages c @ [assistant_message (now c) (finalContent (streamChunks c))])"
    by (rule messages_done)
next
  show "streamChunks (onmessage (Done sid) c) = []"
    by (rule chunks_done)
qed

text \<open>
  The rule at three buffers: a tool call followed by two results (the first result is
  taken), the specification's example without a result, and a buffer of tool chunks only
  (no message is appended).
\<close>

theorem done_finalization_witness:
  "finalContent [\<lparr>content = ''ls'', ctype = ''tool_use''\<rparr>, \<lparr>content = ''A'', ctype = ''result''\<rparr>,
                 \<lparr>content = ''B'', ctype = ''result''\<rparr>] = ''A''
   \<and> finalContent [\<lparr>content = ''Hello '', ctype = ''text''\<rparr>, \<lparr>content = ''ls'', ctype = ''tool_use''\<rparr>,
                   \<lparr>content = ''world'', ctype = ''text''\<rparr>] = ''Hello world''
   \<and> messages (onmessage (Done None)
         ((chat_init None)\<lparr>streamChunks := [\<lparr>content = ''ls'', ctype = ''tool_use''\<rparr>]\<rparr>)) = []"
  using done_finalization [where pre = "[\<lparr>content = ''ls'', ctype = ''tool_use''\<rparr>]"
          and r = "\<lparr>content = ''A'', ctype = ''result''\<rparr>"
          and post = "[\<lparr>content = ''B'', ctype = ''result''\<rparr>]"
          and chunks = "[\<lparr>content = ''Hello '', ctype = ''text''\<rparr>, \<lparr>content = ''ls'', ctype = ''tool_use''\<rparr>,
                   \<lparr>content = ''world'', ctype = ''text''\<rparr>]"
          and sid = None
          and c = "(chat_init None)\<lparr>streamChunks := [\<lparr>content = ''ls'', ctype = ''tool_use''\<rparr>]\<rparr>"]
  by (simp add: chat_init_def finalContent_def)

text \<open>
  C1 as stated fails on a buffer with two chunks of type \<^verbatim>\<open>result\<close>: the code takes the
  first (\<^verbatim>\<open>chunks.find\<close>), the specification's rule the last.
\<close>

theorem done_last_result_counterexample:
  "finalContent [\<lparr>content = ''A'', ctype = ''result''\<rparr>, \<lparr>content = ''B'', ctype = ''result''\<rparr>] = ''A''
   \<and> specified_content [\<lparr>content = ''A'', ctype = ''result''\<rparr>, \<lparr>content = ''B'', ctype = ''result''\<rparr>] = ''B''"
  by (simp add: finalContent_def specified_content_def)

section \<open>What the events of the chat page leave alone\<close>

lemmas chat_defs = connect_def disconnect_def resetFirstMessage_def sendMessage_def onclose_def
  setTimeout_def setCurrentSession_def addMessage_def setStreaming_def appendStreamChunk_def
  resetStreamChunks_def chat_fire_def revokeObjectURL_def

lemmas run_defs = chat_run_def chat_init_def connect_def disconnect_def resetFirstMessage_def
  sendMessage_def onclose_def setTimeout_def setCurrentSession_def addMessage_def
  setStreaming_def appendStreamChunk_def resetStreamChunks_def chat_fire_def truthy_def
  or_else_def ready_def set_ready_def ws_send_def ws_close_def new_WebSocket_def
  due_timers_def waiting_timers_def user_message_def assistant_message_def finalContent_def

lemma fold_chat_fire_store:
  "streaming (fold chat_fire cbs c) = streaming c \<and> streamChunks (fold chat_fire cbs c) = streamChunks c
   \<and> sentFirstRef (fold chat_fire cbs c) = sentFirstRef c"
  by (induction cbs arbitrary: c) (auto simp: chat_defs split: chat_callback.splits)

lemma fold_revoke_store:
  "streaming (fold (\<lambda>a s. case previewUrl a of Some u \<Rightarrow> revokeObjectURL u s | None \<Rightarrow> s) as c) = streaming c
   \<and> streamChunks (fold (\<lambda>a s. case previewUrl a of Some u \<Rightarrow> revokeObjectURL u s | None \<Rightarrow> s) as c) = streamChunks c
   \<and> sentFirstRef (fold (\<lambda>a s. case previewUrl a of Some u \<Rightarrow> revokeObjectURL u s | None \<Rightarrow> s) as c) = sentFirstRef c"
  by (induction as arbitrary: c) (auto simp: chat_defs split: option.splits)

lemma upload_one_store:
  "streaming (upload_one u c) = streaming c \<and> streamChunks (upload_one u c) = streamChunks c
   \<and> sentFirstRef (upload_one u c) = sentFirstRef c"
  by (auto simp: upload_one_def upload_started_def upload_settled_def Let_def chat_defs
      split: upload_outcome.splits option.splits)

lemma fold_upload_one_store:
  "streaming (fold upload_one us c) = streaming c \<and> streamChunks (fold upload_one us c) = streamChunks c
   \<and> sentFirstRef (fold upload_one us c) = sentFirstRef c"
  by (induction us arbitrary: c) (auto simp: upload_one_store)

lemma handleFileUpload_store:
  "streaming (handleFileUpload us c) = streaming c \<and> streamChunks (handleFileUpload us c) = streamChunks c
   \<and> sentFirstRef (handleFileUpload us c) = sentFirstRef c"
  by (simp add: handleFileUpload_def Let_def fold_upload_one_store)

lemma sendMessage_store:
  "sentFirstRef (sendMessage s atts c) = sentFirstRef c
   \<and> (sendMessage s atts c = c \<or> (streaming (sendMessage s atts c) \<and> streamChunks (sendMessage s atts c) = []))"
  by (auto simp: sendMessage_def Let_def chat_defs split: option.splits)

lemma handleSend_store:
  "sentFirstRef (handleSend sendMessage c) = sentFirstRef c
   \<and> (buffer_inv c \<longrightarrow> buffer_inv (handleSend sendMessage c))"
  using sendMessage_store [of "js_trim (input c)" "map (\<lambda>a. \<lparr>filename = att_filename a, path = att_path a\<rparr>) (attachments c)" c]
  by (auto simp: handleSend_def Let_def fold_revoke_store buffer_inv_def)

section \<open>The buffer and the streaming flag\<close>

lemma buffer_inv_step:
  "buffer_inv c \<Longrightarrow> (chunk_delivered c ev \<longrightarrow> streaming c) \<Longrightarrow> buffer_inv (chat_step ev c)"
proof (cases ev)
  case (WsMessage i d)
  assume "buffer_inv c" "chunk_delivered c ev \<longrightarrow> streaming c"
  then show ?thesis using WsMessage
    by (cases d) (auto simp: buffer_inv_def Let_def chat_defs)
next
  case (CallSendMessage s atts)
  assume "buffer_inv c"
  then show ?thesis using CallSendMessage sendMessage_store [of s atts c]
    by (auto simp: buffer_inv_def)
next
  case (Advance d)
  assume "buffer_inv c"
  then show ?thesis using Advance
    by (simp add: buffer_inv_def Let_def fold_chat_fire_store)
next
  case (UploadFiles us)
  assume "buffer_inv c"
  then show ?thesis using UploadFiles
    by (simp add: buffer_inv_def handleFileUpload_store)
qed (auto simp: buffer_inv_def chat_defs split: option.splits)

lemma buffer_inv_run:
  "buffer_inv c \<Longrightarrow> chunks_while_streaming evs c \<Longrightarrow> buffer_inv (chat_run evs c)"
  unfolding chat_run_def
  by (induction evs arbitrary: c) (auto simp: buffer_inv_step)

lemma done_error_clear:
  "streamChunks (onmessage (Done sid) c) = [] \<and> \<not> streaming (onmessage (Done sid) c)
   \<and> streamChunks (onmessage (Error m) c) = [] \<and> \<not> streaming (onmessage (Error m) c)"
  by (simp add: Let_def chat_defs)

text \<open>
  C9, as amended. The Aggregation Buffer is non-empty only if the page is streaming in
  every state the page reaches by a run in which each \<^verbatim>\<open>chunk\<close> event is delivered while
  the page is streaming: every event of the page (a submission or another call of the
  hook, a socket event, time passing, typing, an upload) keeps the invariant, a
  \<^verbatim>\<open>chunk\<close> event under that condition, and so does a submission through the composer
  that is handed \<^verbatim>\<open>sendMessage\<close>. On \<^verbatim>\<open>done\<close> and on \<^verbatim>\<open>error\<close> the buffer is cleared and
  streaming becomes false.
\<close>

theorem buffer_streaming_invariant:
  "(chunks_while_streaming evs (chat_init tok) \<longrightarrow> buffer_inv (chat_run evs (chat_init tok)))
   \<and> (buffer_inv c \<and> (chunk_delivered c ev \<longrightarrow> streaming c) \<longrightarrow> buffer_inv (chat_step ev c))
   \<and> (buffer_inv c \<longrightarrow> buffer_inv (handleSend sendMessage c))
   \<and> streamChunks (onmessage (Done sid) c) = [] \<and> \<not> streaming (onmessage (Done sid) c)
   \<and> streamChunks (onmessage (Error m) c) = [] \<and> \<not> streaming (onmessage (Error m) c)"
proof -
  have "buffer_inv (chat_init tok)"
    by (simp add: buffer_inv_def chat_init_def)
  then have "chunks_while_streaming evs (chat_init tok) \<longrightarrow> buffer_inv (chat_run evs (chat_init tok))"
    by (simp add: buffer_inv_run)
  moreover have "buffer_inv c \<and> (chunk_delivered c ev \<longrightarrow> streaming c) \<longrightarrow> buffer_inv (chat_step ev c)"
    by (simp add: buffer_inv_step)
  ultimately show ?thesis
    using done_error_clear [of sid c m] handleSend_store [of c] by simp
qed

text \<open>A run that keeps to the exchange, up to a state with a chunk in the buffer.\<close>

theorem buffer_streaming_invariant_witness:
  "chunks_while_streaming
     [CallConnect, WsOpen 0, CallSendMessage ''hi'' [], WsMessage 0 (Chunk ''a'' None)] (chat_init (Some ''t''))
   \<and> buffer_inv (chat_run
     [CallConnect, WsOpen 0, CallSendMessage ''hi'' [], WsMessage 0 (Chunk ''a'' None)] (chat_init (Some ''t'')))
   \<and> streamChunks (chat_run
     [CallConnect, WsOpen 0, CallSendMessage ''hi'' [], WsMessage 0 (Chunk ''a'' None)] (chat_init (Some ''t'')))
       = [\<lparr>content = ''a'', ctype = ''text''\<rparr>]"
proof -
  have h: "chunks_while_streaming
     [CallConnect, WsOpen 0, CallSendMessage ''hi'' [], WsMessage 0 (Chunk ''a'' None)] (chat_init (Some ''t''))"
    by (simp add: run_defs)
  have "streamChunks (chat_run
     [CallConnect, WsOpen 0, CallSendMessage ''hi'' [], WsMessage 0 (Chunk ''a'' None)] (chat_init (Some ''t'')))
       = [\<lparr>content = ''a'', ctype = ''text''\<rparr>]"
    by (simp add: run_defs)
  with h show ?thesis
    using buffer_streaming_invariant [THEN conjunct1, THEN mp, OF h] by simp
qed

text \<open>
  C9 as stated fails: the \<^verbatim>\<open>chunk\<close> case appends whatever the streaming flag is. A chunk
  that arrives after \<^verbatim>\<open>done\<close> leaves a non-empty buffer on a page that is not streaming.
\<close>

theorem late_chunk_counterexample:
  "streamChunks (chat_run
     [CallConnect, WsOpen 0, CallSendMessage ''hi'' [], WsMessage 0 (Done None), WsMessage 0 (Chunk ''x'' None)]
     (chat_init (Some ''t''))) = [\<lparr>content = ''x'', ctype = ''text''\<rparr>]
   \<and> streaming (chat_run
     [CallConnect, WsOpen 0, CallSendMessage ''hi'' [], WsMessage 0 (Done None), WsMessage 0 (Chunk ''x'' None)]
     (chat_init (Some ''t''))) = False"
  by (simp add: run_defs)

section \<open>The first-message flag\<close>

lemma sentFirstRef_step:
  "sentFirstRef (chat_step ev c) =
     (if ev = CallResetFirstMessage then False
      else if (\<exists>j sid. ev = WsMessage j (SessionId sid) \<and> ready (sockets c) j = Some OPEN) then True
      else sentFirstRef c)"
proof (cases ev)
  case (WsMessage i d)
  then show ?thesis
    by (cases d) (auto simp: Let_def chat_defs)
next
  case (CallSendMessage s atts)
  then show ?thesis using sendMessage_store [of s atts c] by simp
next
  case (Advance d)
  then show ?thesis by (simp add: Let_def fold_chat_fire_store)
next
  case (UploadFiles us)
  then show ?thesis by (simp add: handleFileUpload_store)
qed (auto simp: chat_defs split: option.splits)

lemma sendMessage_frame:
  "wsRef c = Some i \<Longrightarrow> ready (sockets c) i = Some OPEN \<Longrightarrow>
   outbox (sockets (sendMessage s atts c) ! i) =
     outbox (sockets c ! i) @
       [\<lparr>out_content = s, out_attachments = atts, out_session_id = currentSessionId c,
         is_first_message = (\<not> truthy (currentSessionId c) \<or> \<not> sentFirstRef c)\<rparr>]"
  by (auto simp: sendMessage_def Let_def chat_defs ws_send_def ready_def split: if_splits)

text \<open>
  C3, as amended. Every message that \<^verbatim>\<open>sendMessage\<close> puts on an open transport carries
  the session id bound at that moment and \<open>is_first_message\<close> true if and only if no
  session id is bound (it is null or empty) or the flag \<^verbatim>\<open>sentFirstRef\<close> is unset. The flag
  belongs to the hook, not to a connection: a \<^verbatim>\<open>session_id\<close> event delivered on any open
  socket of the page sets it, only \<^verbatim>\<open>resetFirstMessage\<close> unsets it, and every other event
  (\<^verbatim>\<open>disconnect\<close>, \<^verbatim>\<open>connect\<close> and a reconnect among them) leaves it as it is.
\<close>

theorem first_message_flag:
  "(wsRef c = Some i \<and> ready (sockets c) i = Some OPEN \<longrightarrow>
      outbox (sockets (sendMessage s atts c) ! i) =
        outbox (sockets c ! i) @
          [\<lparr>out_content = s, out_attachments = atts, out_session_id = currentSessionId c,
            is_first_message = (\<not> truthy (currentSessionId c) \<or> \<not> sentFirstRef c)\<rparr>])
   \<and> sentFirstRef (chat_step ev c) =
        (if ev = CallResetFirstMessage then False
         else if (\<exists>j sid. ev = WsMessage j (SessionId sid) \<and> ready (sockets c) j = Some OPEN) then True
         else sentFirstRef c)"
  using sendMessage_frame [of c i s atts] sentFirstRef_step [of ev c] by simp

text \<open>
  The lifecycle of the specification's fourth testable property: the first message of a
  fresh transport carries the flag, the message after a \<^verbatim>\<open>session_id\<close> event does not;
  \<^verbatim>\<open>resetFirstMessage\<close> unsets the flag.
\<close>

theorem first_message_flag_witness:
  "map is_first_message (outbox (sockets (sendMessage ''b'' []
      (chat_run [CallConnect, WsOpen 0, CallSendMessage ''a'' [], WsMessage 0 (SessionId ''s1''),
                 WsMessage 0 (Done None)] (chat_init (Some ''t'')))) ! 0)) = [True, False]
   \<and> sentFirstRef (chat_step CallResetFirstMessage
      (chat_run [CallConnect, WsOpen 0, CallSendMessage ''a'' [], WsMessage 0 (SessionId ''s1''),
                 WsMessage 0 (Done None)] (chat_init (Some ''t'')))) = False"
  using first_message_flag [of
      "chat_run [CallConnect, WsOpen 0, CallSendMessage ''a'' [], WsMessage 0 (SessionId ''s1''),
                 WsMessage 0 (Done None)] (chat_init (Some ''t''))" 0 "''b''" "[]" CallResetFirstMessage]
  by (simp add: run_defs Let_def)

text \<open>
  C3 as stated fails: the disposer \<^verbatim>\<open>disconnect\<close> does not reset the flag. After a
  \<^verbatim>\<open>session_id\<close> event on the first socket, \<^verbatim>\<open>disconnect\<close> and a new \<^verbatim>\<open>connect\<close>, the
  message sent on the second socket, which has received no event but its opening, is
  not marked as a first message.
\<close>

theorem disposer_keeps_flag_counterexample:
  "sentFirstRef (chat_run [CallConnect, WsOpen 0, WsMessage 0 (SessionId ''s1''), CallDisconnect]
      (chat_init (Some ''t''))) = True
   \<and> wsRef (chat_run [CallConnect, WsOpen 0, WsMessage 0 (SessionId ''s1''), CallDisconnect,
                       CallConnect, WsOpen 1, CallSendMessage ''hi'' []] (chat_init (Some ''t''))) = Some 1
   \<and> outbox (sockets (chat_run [CallConnect, WsOpen 0, WsMessage 0 (SessionId ''s1''), CallDisconnect,
                       CallConnect, WsOpen 1, CallSendMessage ''hi'' []] (chat_init (Some ''t''))) ! 1)
       = [\<lparr>out_content = ''hi'', out_attachments = [], out_session_id = Some ''s1'',
           is_first_message = False\<rparr>]"
  by (simp add: run_defs Let_def)

text \<open>
  C10. A \<^verbatim>\<open>done\<close> event leaves the first-message flag as it is and binds the session id
  it carries (when that is a non-empty string); of all inbound events only a
  \<^verbatim>\<open>session_id\<close> event sets the flag. So in the run connect, open, send, \<^verbatim>\<open>done\<close> with a
  session id, send again, the second message carries that session id together with
  \<open>is_first_message\<close> true.
\<close>

theorem done_binds_session_without_flag:
  "sentFirstRef (onmessage (Done sid) c) = sentFirstRef c
   \<and> currentSessionId (onmessage (Done sid) c) = (if truthy sid then sid else currentSessionId c)
   \<and> sentFirstRef (onmessage ev c) = (sentFirstRef c \<or> (\<exists>i. ev = SessionId i))
   \<and> map (\<lambda>f. (out_session_id f, is_first_message f))
        (outbox (sockets (chat_run
           [CallConnect, WsOpen 0, CallSendMessage a atts, WsMessage 0 (Done (Some ''s1'')),
            CallSendMessage b atts'] (chat_init (Some ''t''))) ! 0))
      = [(None, True), (Some ''s1'', True)]"
proof (intro conjI)
  show "sentFirstRef (onmessage ev c) = (sentFirstRef c \<or> (\<exists>i. ev = SessionId i))"
    by (cases ev) (auto simp: Let_def chat_defs)
qed (simp_all add: Let_def run_defs)

text \<open>The run with two concrete messages.\<close>

theorem done_binds_session_without_flag_witness:
  "map (\<lambda>f. (out_content f, out_session_id f, is_first_message f))
        (outbox (sockets (chat_run
           [CallConnect, WsOpen 0, CallSendMessage ''hi'' [], WsMessage 0 (Done (Some ''s1'')),
            CallSendMessage ''again'' []] (chat_init (Some ''t''))) ! 0))
      = [(''hi'', None, True), (''again'', Some ''s1'', True)]"
  using done_binds_session_without_flag [of None "chat_init (Some ''t'')" Other "''hi''" "[]" "''again''" "[]"]
  by (simp add: run_defs Let_def)

section \<open>Submissions while streaming\<close>

lemma sendMessage_open:
  "wsRef c = Some i \<Longrightarrow> ready (sockets c) i = Some OPEN \<Longrightarrow>
   streamChunks (sendMessage s atts c) = [] \<and> streaming (sendMessage s atts c)
   \<and> messages (sendMessage s atts c) = messages c @ [user_message (now c) s atts]"
  by (simp add: sendMessage_def Let_def chat_defs)

text \<open>
  C4, as amended. A submission made through the composer while the streaming flag is
  true is rejected: \<^verbatim>\<open>handleSend\<close> returns before it calls \<^verbatim>\<open>onSend\<close>, whatever \<^verbatim>\<open>onSend\<close>
  is, so the whole state of the page is as before: nothing is sent, nothing is queued
  (the state holds no queue), and the Aggregation Buffer is unchanged. The test is the
  composer's alone: \<^verbatim>\<open>sendMessage\<close> does not read the flag, and on an open transport it
  empties the Aggregation Buffer, adds the message to the history and puts it on the
  wire, whether the page is streaming or not.
\<close>

theorem submission_rejected_while_streaming:
  "(streaming c \<longrightarrow>
     handleSend onSend c = c
     \<and> streamChunks (handleSend onSend c) = streamChunks c
     \<and> sockets (handleSend onSend c) = sockets c
     \<and> messages (handleSend onSend c) = messages c)
   \<and> (wsRef c = Some i \<and> ready (sockets c) i = Some OPEN \<longrightarrow>
        streamChunks (sendMessage s atts c) = []
        \<and> streaming (sendMessage s atts c)
        \<and> messages (sendMessage s atts c) = messages c @ [user_message (now c) s atts]
        \<and> outbox (sockets (sendMessage s atts c) ! i) =
            outbox (sockets c ! i) @
              [\<lparr>out_content = s, out_attachments = atts, out_session_id = currentSessionId c,
                is_first_message = (\<not> truthy (currentSessionId c) \<or> \<not> sentFirstRef c)\<rparr>])"
  using sendMessage_open [of c i s atts] sendMessage_frame [of c i s atts]
  by (simp add: handleSend_def Let_def)

text \<open>
  A page that is streaming with one chunk in its buffer and a second text typed: the
  submission through the composer, handed \<^verbatim>\<open>sendMessage\<close>, changes nothing; \<^verbatim>\<open>sendMessage\<close>
  called with the same text empties the buffer and sends it.
\<close>

theorem submission_rejected_while_streaming_witness:
  "streaming (chat_run [CallConnect, WsOpen 0, CallSendMessage ''one'' [],
        WsMessage 0 (Chunk ''x'' None), TypeInput ''two''] (chat_init (Some ''t'')))
   \<and> handleSend sendMessage (chat_run [CallConnect, WsOpen 0, CallSendMessage ''one'' [],
        WsMessage 0 (Chunk ''x'' None), TypeInput ''two''] (chat_init (Some ''t'')))
     = chat_run [CallConnect, WsOpen 0, CallSendMessage ''one'' [],
        WsMessage 0 (Chunk ''x'' None), TypeInput ''two''] (chat_init (Some ''t''))
   \<and> streamChunks (chat_run [CallConnect, WsOpen 0, CallSendMessage ''one'' [],
        WsMessage 0 (Chunk ''x'' None), TypeInput ''two''] (chat_init (Some ''t'')))
     = [\<lparr>content = ''x'', ctype = ''text''\<rparr>]
   \<and> input (chat_run [CallConnect, WsOpen 0, CallSendMessage ''one'' [],
        WsMessage 0 (Chunk ''x'' None), TypeInput ''two''] (chat_init (Some ''t''))) = ''two''
   \<and> streamChunks (sendMessage ''two'' [] (chat_run [CallConnect, WsOpen 0, CallSendMessage ''one'' [],
        WsMessage 0 (Chunk ''x'' None), TypeInput ''two''] (chat_init (Some ''t'')))) = []
   \<and> outbox (sockets (sendMessage ''two'' [] (chat_run [CallConnect, WsOpen 0, CallSendMessage ''one'' [],
        WsMessage 0 (Chunk ''x'' None), TypeInput ''two''] (chat_init (Some ''t'')))) ! 0)
     = [\<lparr>out_content = ''one'', out_attachments = [], out_session_id = None, is_first_message = True\<rparr>,
        \<lparr>out_content = ''two'', out_attachments = [], out_session_id = None, is_first_message = True\<rparr>]"
proof -
  let ?c = "chat_run [CallConnect, WsOpen 0, CallSendMessage ''one'' [],
        WsMessage 0 (Chunk ''x'' None), TypeInput ''two''] (chat_init (Some ''t''))"
  have h: "streaming ?c"
    by (simp add: run_defs Let_def)
  have k: "streamChunks ?c = [\<lparr>content = ''x'', ctype = ''text''\<rparr>] \<and> input ?c = ''two''"
    by (simp add: run_defs Let_def)
  have g: "wsRef ?c = Some 0 \<and> ready (sockets ?c) 0 = Some OPEN"
    by (simp add: run_defs Let_def)
  have j: "outbox (sockets ?c ! 0) =
      [\<lparr>out_content = ''one'', out_attachments = [], out_session_id = None, is_first_message = True\<rparr>]
      \<and> currentSessionId ?c = None"
    by (simp add: run_defs Let_def)
  show ?thesis
    using submission_rejected_while_streaming [THEN conjunct1, THEN mp, OF h, THEN conjunct1, of sendMessage]
      submission_rejected_while_streaming [THEN conjunct2, THEN mp, OF g, of "''two''" "[]"] h k j
    by (simp add: truthy_def)
qed

text \<open>
  C4 as stated fails for a submission that does not pass through the composer: a call
  of \<^verbatim>\<open>sendMessage\<close> on a page that is streaming with one chunk in its buffer empties the
  buffer and sends the second message.
\<close>

theorem sendMessage_while_streaming_counterexample:
  "streaming (chat_run [CallConnect, WsOpen 0, CallSendMessage ''one'' [],
        WsMessage 0 (Chunk ''x'' None)] (chat_init (Some ''t'')))
   \<and> streamChunks (chat_run [CallConnect, WsOpen 0, CallSendMessage ''one'' [],
        WsMessage 0 (Chunk ''x'' None)] (chat_init (Some ''t'')))
     = [\<lparr>content = ''x'', ctype = ''text''\<rparr>]
   \<and> streamChunks (chat_run [CallConnect, WsOpen 0, CallSendMessage ''one'' [],
        WsMessage 0 (Chunk ''x'' None), CallSendMessage ''two'' []] (chat_init (Some ''t''))) = []
   \<and> map out_content (outbox (sockets (chat_run [CallConnect, WsOpen 0, CallSendMessage ''one'' [],
        WsMessage 0 (Chunk ''x'' None), CallSendMessage ''two'' []] (chat_init (Some ''t''))) ! 0))
     = [''one'', ''two'']
   \<and> map msg_content (messages (chat_run [CallConnect, WsOpen 0, CallSendMessage ''one'' [],
        WsMessage 0 (Chunk ''x'' None), CallSendMessage ''two'' []] (chat_init (Some ''t''))))
     = [''one'', ''two'']"
  by (simp add: run_defs Let_def)

section \<open>Sending on a transport that is not open\<close>

lemmas shell_defs = shell_run_def shell_init_def mount_def unmount_def doFit_def shell_connect_def
  shell_onopen_def shell_onmessage_def shell_onclose_def shell_onerror_def shell_fire_def
  guarded_send_def term_write_def sendCommand_def sendKey_def onData_def onBinary_def
  handleMobileSend_def shell_upload_started_def shell_upload_settled_def setTimeout_def
  clearTimeout_def truthy_def ready_def set_ready_def ws_send_def ws_close_def
  new_WebSocket_def due_timers_def waiting_timers_def RECONNECT_DELAY_def

lemma mounted_open_reached:
  "shell_run [Mount, SockOpen 0] (shell_init (Some ''t'') (Some (120, 40))) = mounted_open"
  unfolding mounted_open_def by code_simp

lemma guarded_send_closed:
  "\<not> is_open (sockets sh) (wsRef sh) \<Longrightarrow> guarded_send f sh = sh"
  by (auto simp: guarded_send_def is_open_def split: option.splits)

lemma sendMessage_closed:
  "\<not> is_open (sockets c) (wsRef c) \<Longrightarrow> sendMessage s atts c = c"
  by (auto simp: sendMessage_def is_open_def split: option.splits)

text \<open>
  C5. A send on a transport that is not connected (its socket reference is null, or the
  socket is not in the state \<^verbatim>\<open>OPEN\<close>, which is what the code tests) is a no-op: the chat
  transport's \<^verbatim>\<open>sendMessage\<close> and the shell transport's \<^verbatim>\<open>sendCommand\<close>, \<^verbatim>\<open>sendKey\<close> and
  every other guarded send return the state they were given, so nothing is transmitted
  and neither the history, the streaming flag nor the Aggregation Buffer changes.
\<close>

theorem send_dropped_when_not_connected:
  "(\<not> is_open (sockets c) (wsRef c) \<longrightarrow> sendMessage s atts c = c)
   \<and> (\<not> is_open (sockets sh) (wsRef sh) \<longrightarrow>
        sendCommand cmd sh = sh \<and> sendKey sq sh = sh \<and> guarded_send f sh = sh)"
  by (simp add: sendMessage_closed guarded_send_closed sendCommand_def sendKey_def)

text \<open>
  A chat page whose socket has closed, and a shell bridge whose socket is still
  connecting.
\<close>

theorem send_dropped_when_not_connected_witness:
  "\<not> is_open (sockets (chat_run [CallConnect, WsOpen 0, WsClose 0] (chat_init (Some ''t''))))
              (wsRef (chat_run [CallConnect, WsOpen 0, WsClose 0] (chat_init (Some ''t''))))
   \<and> sendMessage ''hi'' [] (chat_run [CallConnect, WsOpen 0, WsClose 0] (chat_init (Some ''t'')))
       = chat_run [CallConnect, WsOpen 0, WsClose 0] (chat_init (Some ''t''))
   \<and> \<not> is_open (sockets (shell_run [Mount] (shell_init (Some ''t'') (Some (120, 40)))))
              (wsRef (shell_run [Mount] (shell_init (Some ''t'') (Some (120, 40)))))
   \<and> sendCommand ''ls'' (shell_run [Mount] (shell_init (Some ''t'') (Some (120, 40))))
       = shell_run [Mount] (shell_init (Some ''t'') (Some (120, 40)))
   \<and> sendKey ''c'' (shell_run [Mount] (shell_init (Some ''t'') (Some (120, 40))))
       = shell_run [Mount] (shell_init (Some ''t'') (Some (120, 40)))"
proof -
  have a: "\<not> is_open (sockets (chat_run [CallConnect, WsOpen 0, WsClose 0] (chat_init (Some ''t''))))
              (wsRef (chat_run [CallConnect, WsOpen 0, WsClose 0] (chat_init (Some ''t''))))"
    by (simp add: run_defs is_open_def)
  have b: "\<not> is_open (sockets (shell_run [Mount] (shell_init (Some ''t'') (Some (120, 40)))))
              (wsRef (shell_run [Mount] (shell_init (Some ''t'') (Some (120, 40)))))"
    by code_simp
  show ?thesis
    using a b
      send_dropped_when_not_connected [THEN conjunct1, THEN mp, OF a, of "''hi''" "[]"]
      send_dropped_when_not_connected [THEN conjunct2, THEN mp, OF b, of "''ls''" "''c''"]
    by simp
qed

section \<open>Uploads into the shell and failed uploads\<close>

lemma upload_path_sent:
  "wsRef s = Some i \<Longrightarrow> ready (sockets s) i = Some OPEN \<Longrightarrow>
   sockets (shell_upload_settled f (Resolved r) s) =
     (sockets s)[i := (sockets s ! i)\<lparr>outbox := outbox (sockets s ! i) @ [TextFrame (up_path r)]\<rparr>]"
  by (simp add: shell_upload_settled_def guarded_send_def ws_send_def)

text \<open>
  C7. When an upload of the shell bridge succeeds and the transport is open, exactly one
  frame is sent into it: the returned path string as it is, with no newline appended;
  every other socket is left alone. (When the transport is not open, nothing is sent.)
\<close>

theorem upload_path_injected:
  "(wsRef s = Some i \<and> ready (sockets s) i = Some OPEN \<longrightarrow>
      sockets (shell_step (UploadSettle f (Resolved r)) s) =
        (sockets s)[i := (sockets s ! i)\<lparr>outbox := outbox (sockets s ! i) @ [TextFrame (up_path r)]\<rparr>]
      \<and> outbox (sockets (shell_step (UploadSettle f (Resolved r)) s) ! i) =
          outbox (sockets s ! i) @ [TextFrame (up_path r)])
   \<and> (\<not> is_open (sockets s) (wsRef s) \<longrightarrow>
        sockets (shell_step (UploadSettle f (Resolved r)) s) = sockets s)"
proof (intro conjI impI)
  assume h: "wsRef s = Some i \<and> ready (sockets s) i = Some OPEN"
  then show a: "sockets (shell_step (UploadSettle f (Resolved r)) s) =
        (sockets s)[i := (sockets s ! i)\<lparr>outbox := outbox (sockets s ! i) @ [TextFrame (up_path r)]\<rparr>]"
    by (simp add: upload_path_sent)
  from h have "i < length (sockets s)"
    by (simp add: ready_def split: if_splits)
  then show "outbox (sockets (shell_step (UploadSettle f (Resolved r)) s) ! i) =
          outbox (sockets s ! i) @ [TextFrame (up_path r)]"
    using a by simp
next
  assume "\<not> is_open (sockets s) (wsRef s)"
  then show "sockets (shell_step (UploadSettle f (Resolved r)) s) = sockets s"
    by (simp add: shell_upload_settled_def guarded_send_closed)
qed

text \<open>An image uploaded into the mounted, open shell bridge.\<close>

theorem upload_path_injected_witness:
  "sockets (shell_step
       (UploadSettle \<lparr>file_name = ''a.png'', file_type = ''image/png''\<rparr>
         (Resolved \<lparr>up_filename = ''a.png'', up_path = ''/uploads/a.png'', up_size = 3,
                    up_content_type = ''image/png''\<rparr>))
       (shell_step (UploadStart \<lparr>file_name = ''a.png'', file_type = ''image/png''\<rparr>) mounted_open))
   = [\<lparr>readyState = OPEN, outbox = [ResizeFrame 120 40, TextFrame ''/uploads/a.png'']\<rparr>]"
proof -
  let ?s = "shell_step (UploadStart \<lparr>file_name = ''a.png'', file_type = ''image/png''\<rparr>) mounted_open"
  have a: "wsRef ?s = Some 0 \<and> ready (sockets ?s) 0 = Some OPEN"
    by (simp add: mounted_open_def shell_upload_started_def ready_def)
  have b: "sockets ?s = [\<lparr>readyState = OPEN, outbox = [ResizeFrame 120 40]\<rparr>]"
    by (simp add: mounted_open_def shell_upload_started_def)
  show ?thesis
    using upload_path_injected [THEN conjunct1, THEN mp, OF a, THEN conjunct1,
        of "\<lparr>file_name = ''a.png'', file_type = ''image/png''\<rparr>"
           "\<lparr>up_filename = ''a.png'', up_path = ''/uploads/a.png'', up_size = 3,
                    up_content_type = ''image/png''\<rparr>"] b
    by simp
qed















section \<open>Resize negotiation\<close>

lemma doFit_frame:
  "timers (doFit s) = timers s \<and> now (doFit s) = now s \<and> timer_seq (doFit s) = timer_seq s"
  by (auto simp: doFit_def guarded_send_def Let_def split: option.splits prod.splits)

lemma shell_connect_frame:
  "timers (shell_connect s) = timers s \<and> now (shell_connect s) = now s"
  by (simp add: shell_connect_def)

lemma mount_timers:
  "map (\<lambda>t. (due t, callback t)) (timers (mount s)) =
     map (\<lambda>t. (due t, callback t)) (timers s) @
       [(now s + 100, DoFit), (now s + 500, DoFit), (now s + 1500, DoFit)]"
proof -
  define s2 where "s2 = doFit (s\<lparr>termRef := Some \<lparr>cols = 80, rows = 24, screen = []\<rparr>\<rparr>)"
  have a: "timers s2 = timers s \<and> now s2 = now s"
    by (simp add: s2_def doFit_frame)
  have "timers (mount s) = timers (setTimeout DoFit 1500 (setTimeout DoFit 500 (setTimeout DoFit 100 s2)))"
    by (simp add: mount_def Let_def s2_def shell_connect_frame)
  then show ?thesis using a
    by (simp add: setTimeout_def)
qed

lemma onopen_resize:
  "termRef s = Some t \<Longrightarrow> ready (sockets s) i = Some CONNECTING \<Longrightarrow>
   outbox (sockets (shell_step (SockOpen i) s) ! i) = outbox (sockets s ! i) @ [ResizeFrame (cols t) (rows t)]"
  by (auto simp: shell_onopen_def Let_def ws_send_def set_ready_def ready_def split: if_splits)

lemma doFit_sends:
  "termRef s = Some t \<Longrightarrow> geometry s = Some (c, r) \<Longrightarrow> 0 < c \<Longrightarrow> 0 < r \<Longrightarrow>
   wsRef s = Some i \<Longrightarrow> ready (sockets s) i = Some OPEN \<Longrightarrow>
   sockets (doFit s) = (sockets s)[i := (sockets s ! i)\<lparr>outbox := outbox (sockets s ! i) @ [ResizeFrame c r]\<rparr>]"
  by (simp add: doFit_def guarded_send_def ws_send_def Let_def)

lemma doFit_skips:
  "\<not> is_open (sockets s) (wsRef s) \<Longrightarrow> sockets (doFit s) = sockets s"
  by (auto simp: doFit_def guarded_send_def is_open_def Let_def split: option.splits prod.splits)

text \<open>
  Time passing over timers that all hold \<^verbatim>\<open>doFit\<close>: the callback runs once for each timer
  that has fallen due.
\<close>

lemma map_const_replicate: "\<forall>x\<in>set xs. f x = v \<Longrightarrow> map f xs = replicate (length xs) v"
  by (induction xs) auto

lemma due_callbacks_DoFit:
  "\<forall>t\<in>set ts. callback t = DoFit \<Longrightarrow>
   map callback (due_timers n ts) = replicate (length (filter (\<lambda>t. due t \<le> n) ts)) DoFit"
  using map_const_replicate [of "due_timers n ts" callback DoFit]
  by (simp add: due_timers_def)

lemma shell_fire_DoFit: "shell_fire DoFit = doFit"
  by (rule ext) (simp add: shell_fire_def)

lemma fold_doFit_open:
  "termRef s = Some t \<Longrightarrow> geometry s = Some (c, r) \<Longrightarrow> 0 < c \<Longrightarrow> 0 < r \<Longrightarrow>
   wsRef s = Some 0 \<Longrightarrow> sockets s = [\<lparr>readyState = OPEN, outbox = xs\<rparr>] \<Longrightarrow>
   sockets (fold shell_fire (replicate n DoFit) s) =
     [\<lparr>readyState = OPEN, outbox = xs @ replicate n (ResizeFrame c r)\<rparr>]"
proof (induction n arbitrary: s t xs)
  case 0
  then show ?case by simp
next
  case (Suc n)
  let ?s = "doFit s"
  have a: "termRef ?s = Some (t\<lparr>cols := c, rows := r\<rparr>) \<and> geometry ?s = Some (c, r) \<and> wsRef ?s = Some 0
      \<and> sockets ?s = [\<lparr>readyState = OPEN, outbox = xs @ [ResizeFrame c r]\<rparr>]"
    using Suc.prems by (simp add: doFit_def guarded_send_def ws_send_def ready_def Let_def)
  then have "sockets (fold shell_fire (replicate n DoFit) ?s) =
     [\<lparr>readyState = OPEN, outbox = (xs @ [ResizeFrame c r]) @ replicate n (ResizeFrame c r)\<rparr>]"
    using Suc.IH [of ?s "t\<lparr>cols := c, rows := r\<rparr>" "xs @ [ResizeFrame c r]"] Suc.prems by (simp add: shell_fire_DoFit)
  then show ?case
    by (simp add: shell_fire_DoFit replicate_app_Cons_same)
qed

lemma fold_doFit_closed:
  "\<not> is_open (sockets s) (wsRef s) \<Longrightarrow>
   sockets (fold shell_fire (replicate n DoFit) s) = sockets s
   \<and> wsRef (fold shell_fire (replicate n DoFit) s) = wsRef s
   \<and> timers (fold shell_fire (replicate n DoFit) s) = timers s
   \<and> (termRef s = Some t \<and> geometry s = Some (cols t, rows t) \<longrightarrow>
       termRef (fold shell_fire (replicate n DoFit) s) = Some t)"
proof (induction n arbitrary: s)
  case 0
  then show ?case by simp
next
  case (Suc n)
  have a: "sockets (doFit s) = sockets s \<and> wsRef (doFit s) = wsRef s \<and> timers (doFit s) = timers s
      \<and> geometry (doFit s) = geometry s
      \<and> (termRef s = Some t \<and> geometry s = Some (cols t, rows t) \<longrightarrow> termRef (doFit s) = Some t)"
    using Suc.prems
    by (auto simp: doFit_def guarded_send_def is_open_def Let_def split: option.splits prod.splits)
  then have "\<not> is_open (sockets (doFit s)) (wsRef (doFit s))"
    using Suc.prems by simp
  then show ?case
    using Suc.IH [of "doFit s"] a by (simp add: shell_fire_DoFit)
qed

lemma fold_doFit_timers:
  "timers (fold shell_fire (replicate n DoFit) s) = timers s"
  by (induction n arbitrary: s) (simp_all add: shell_fire_DoFit doFit_frame)

lemma elapse_DoFit:
  assumes "\<forall>t\<in>set (timers s). callback t = DoFit"
  shows "shell_step (Elapse d) s =
     fold shell_fire (replicate (length (filter (\<lambda>t. due t \<le> now s + d) (timers s))) DoFit)
       (s\<lparr>now := now s + d, timers := waiting_timers (now s + d) (timers s)\<rparr>)"
  by (simp only: shell_step.simps Let_def due_callbacks_DoFit [OF assms])

lemma elapse_open:
  assumes "\<forall>t\<in>set (timers s). callback t = DoFit"
    and "termRef s = Some t" and "geometry s = Some (c, r)" and "0 < c" and "0 < r"
    and "wsRef s = Some 0" and "sockets s = [\<lparr>readyState = OPEN, outbox = xs\<rparr>]"
  shows "sockets (shell_step (Elapse d) s) =
     [\<lparr>readyState = OPEN,
       outbox = xs @ replicate (length (filter (\<lambda>t. due t \<le> now s + d) (timers s))) (ResizeFrame c r)\<rparr>]"
  unfolding elapse_DoFit [OF assms(1)]
  by (rule fold_doFit_open [where t = t]) (simp_all add: assms)

lemma elapse_timers:
  assumes "\<forall>t\<in>set (timers s). callback t = DoFit"
  shows "timers (shell_step (Elapse d) s) = waiting_timers (now s + d) (timers s)"
  unfolding elapse_DoFit [OF assms(1)] fold_doFit_timers by simp

lemma elapse_closed:
  assumes "\<forall>t\<in>set (timers s). callback t = DoFit" and "\<not> is_open (sockets s) (wsRef s)"
  shows "sockets (shell_step (Elapse d) s) = sockets s
     \<and> wsRef (shell_step (Elapse d) s) = wsRef s
     \<and> (termRef s = Some t \<and> geometry s = Some (cols t, rows t) \<longrightarrow>
          termRef (shell_step (Elapse d) s) = Some t)"
proof -
  let ?e = "s\<lparr>now := now s + d, timers := waiting_timers (now s + d) (timers s)\<rparr>"
  have "\<not> is_open (sockets ?e) (wsRef ?e)"
    using assms(2) by simp
  from fold_doFit_closed [OF this, of _ t] show ?thesis
    unfolding elapse_DoFit [OF assms(1)] by simp
qed

lemma fold_doFit_frame:
  "now (fold shell_fire (replicate n DoFit) s) = now s
   \<and> geometry (fold shell_fire (replicate n DoFit) s) = geometry s"
proof (induction n arbitrary: s)
  case 0
  then show ?case by simp
next
  case (Suc n)
  have "now (doFit s) = now s \<and> geometry (doFit s) = geometry s"
    by (auto simp: doFit_def guarded_send_def Let_def split: option.splits prod.splits)
  then show ?case
    using Suc [of "doFit s"] by (simp add: shell_fire_DoFit)
qed

lemma elapse_frame:
  assumes "\<forall>t\<in>set (timers s). callback t = DoFit"
  shows "now (shell_step (Elapse d) s) = now s + d \<and> geometry (shell_step (Elapse d) s) = geometry s"
proof -
  from fold_doFit_frame [of _ "s\<lparr>now := now s + d, timers := waiting_timers (now s + d) (timers s)\<rparr>"]
  show ?thesis
    unfolding elapse_DoFit [OF assms(1)] by simp
qed

text \<open>The component after its mount, and after its socket has opened.\<close>

lemma mounted_state:
  assumes "truthy tok"
  shows "mount (shell_init tok (Some (c, r))) =
     \<lparr>now = 0, token = tok, sockets = [\<lparr>readyState = CONNECTING, outbox = []\<rparr>],
      timers =
        [\<lparr>tid = 1, due = 100, callback = DoFit\<rparr>,
         \<lparr>tid = 2, due = 500, callback = DoFit\<rparr>,
         \<lparr>tid = 3, due = 1500, callback = DoFit\<rparr>],
      timer_seq = 3, wsRef = Some 0, reloads = 0,
      termRef = Some \<lparr>cols = c, rows = r, screen = []\<rparr>,
      reconnectTimer = None, status = Connecting, fitTimers = [1, 2, 3],
      observing = True, geometry = Some (c, r), shell_uploading = False, uploadInfo = [],
      mobileInput = [], shell_upload_calls = []\<rparr>"
proof -
  let ?s1 = "(shell_init tok (Some (c, r)))\<lparr>termRef := Some \<lparr>cols = 80, rows = 24, screen = []\<rparr>\<rparr>"
  have a: "doFit ?s1 = (shell_init tok (Some (c, r)))\<lparr>termRef := Some \<lparr>cols = c, rows = r, screen = []\<rparr>\<rparr>"
    by (simp add: shell_init_def doFit_def guarded_send_def Let_def)
  show ?thesis
    unfolding mount_def Let_def a
    using assms
    by (simp add: shell_init_def setTimeout_def shell_connect_def new_WebSocket_def)
qed

lemma mounted_opened_state:
  assumes "truthy tok"
  shows "shell_step (SockOpen 0) (mount (shell_init tok (Some (c, r)))) =
     \<lparr>now = 0, token = tok, sockets = [\<lparr>readyState = OPEN, outbox = [ResizeFrame c r]\<rparr>],
      timers =
        [\<lparr>tid = 1, due = 100, callback = DoFit\<rparr>,
         \<lparr>tid = 2, due = 500, callback = DoFit\<rparr>,
         \<lparr>tid = 3, due = 1500, callback = DoFit\<rparr>],
      timer_seq = 3, wsRef = Some 0, reloads = 0,
      termRef = Some \<lparr>cols = c, rows = r, screen = []\<rparr>,
      reconnectTimer = None, status = Connected, fitTimers = [1, 2, 3],
      observing = True, geometry = Some (c, r), shell_uploading = False, uploadInfo = [],
      mobileInput = [], shell_upload_calls = []\<rparr>"
  unfolding mounted_state [OF assms]
  by (simp add: ready_def set_ready_def shell_onopen_def ws_send_def Let_def)

lemma retries_sent:
  assumes "truthy tok" and "0 < c" and "0 < r"
  shows "sockets (shell_run [Mount, SockOpen 0, Elapse d] (shell_init tok (Some (c, r)))) =
     [\<lparr>readyState = OPEN,
       outbox = ResizeFrame c r # replicate (length (filter (\<lambda>t. t \<le> d) [100, 500, 1500])) (ResizeFrame c r)\<rparr>]"
proof -
  define s where "s = shell_step (SockOpen 0) (mount (shell_init tok (Some (c, r))))"
  have run: "shell_run [Mount, SockOpen 0, Elapse d] (shell_init tok (Some (c, r))) = shell_step (Elapse d) s"
    unfolding s_def by (simp only: shell_run_def fold.simps o_apply id_apply shell_step.simps(1))
  have s: "now s = 0" "termRef s = Some \<lparr>cols = c, rows = r, screen = []\<rparr>" "geometry s = Some (c, r)"
      "wsRef s = Some 0" "sockets s = [\<lparr>readyState = OPEN, outbox = [ResizeFrame c r]\<rparr>]"
      "timers s = [\<lparr>tid = 1, due = 100, callback = DoFit\<rparr>, \<lparr>tid = 2, due = 500, callback = DoFit\<rparr>,
         \<lparr>tid = 3, due = 1500, callback = DoFit\<rparr>]"
    unfolding s_def mounted_opened_state [OF assms(1)] by simp_all
  have "\<forall>t\<in>set (timers s). callback t = DoFit"
    by (simp add: s)
  from elapse_open [OF this s(2) s(3) assms(2) assms(3) s(4) s(5), of d] show ?thesis
    unfolding run by (simp add: s)
qed

lemma retries_left:
  assumes "truthy tok"
  shows "map due (timers (shell_run [Mount, SockOpen 0, Elapse d] (shell_init tok (Some (c, r))))) =
     filter (\<lambda>t. d < t) [100, 500, 1500]"
proof -
  define s where "s = shell_step (SockOpen 0) (mount (shell_init tok (Some (c, r))))"
  have run: "shell_run [Mount, SockOpen 0, Elapse d] (shell_init tok (Some (c, r))) = shell_step (Elapse d) s"
    unfolding s_def by (simp only: shell_run_def fold.simps o_apply id_apply shell_step.simps(1))
  have s: "now s = 0"
      "timers s = [\<lparr>tid = 1, due = 100, callback = DoFit\<rparr>, \<lparr>tid = 2, due = 500, callback = DoFit\<rparr>,
         \<lparr>tid = 3, due = 1500, callback = DoFit\<rparr>]"
    unfolding s_def mounted_opened_state [OF assms(1)] by simp_all
  have "\<forall>t\<in>set (timers s). callback t = DoFit"
    by (simp add: s)
  from elapse_timers [OF this, of d] show ?thesis
    unfolding run by (simp add: s waiting_timers_def)
qed

lemma retries_skipped:
  assumes "truthy tok"
  shows "sockets (shell_run [Mount, Elapse d] (shell_init tok (Some (c, r)))) =
           [\<lparr>readyState = CONNECTING, outbox = []\<rparr>]
     \<and> map due (timers (shell_run [Mount, Elapse d] (shell_init tok (Some (c, r))))) =
           filter (\<lambda>t. d < t) [100, 500, 1500]
     \<and> sockets (shell_run [Mount, Elapse d, SockOpen 0] (shell_init tok (Some (c, r)))) =
           [\<lparr>readyState = OPEN, outbox = [ResizeFrame c r]\<rparr>]"
proof -
  define s where "s = mount (shell_init tok (Some (c, r)))"
  define e where "e = shell_step (Elapse d) s"
  have run: "shell_run [Mount, Elapse d] (shell_init tok (Some (c, r))) = e"
    unfolding e_def s_def by (simp only: shell_run_def fold.simps o_apply id_apply shell_step.simps(1))
  have run2: "shell_run [Mount, Elapse d, SockOpen 0] (shell_init tok (Some (c, r))) = shell_step (SockOpen 0) e"
    unfolding e_def s_def by (simp only: shell_run_def fold.simps o_apply id_apply shell_step.simps(1))
  have s: "now s = 0" "termRef s = Some \<lparr>cols = c, rows = r, screen = []\<rparr>" "geometry s = Some (c, r)"
      "wsRef s = Some 0" "sockets s = [\<lparr>readyState = CONNECTING, outbox = []\<rparr>]"
      "timers s = [\<lparr>tid = 1, due = 100, callback = DoFit\<rparr>, \<lparr>tid = 2, due = 500, callback = DoFit\<rparr>,
         \<lparr>tid = 3, due = 1500, callback = DoFit\<rparr>]"
    unfolding s_def mounted_state [OF assms(1)] by simp_all
  have all: "\<forall>t\<in>set (timers s). callback t = DoFit"
    by (simp add: s)
  have closed: "\<not> is_open (sockets s) (wsRef s)"
    by (simp add: s is_open_def ready_def)
  have a: "sockets e = [\<lparr>readyState = CONNECTING, outbox = []\<rparr>]"
    using elapse_closed [OF all closed, of d] unfolding e_def by (simp add: s)
  have b: "map due (timers e) = filter (\<lambda>t. d < t) [100, 500, 1500]"
    using elapse_timers [OF all, of d] unfolding e_def by (simp add: s waiting_timers_def)
  have t: "termRef e = Some \<lparr>cols = c, rows = r, screen = []\<rparr>"
    using elapse_closed [OF all closed, of d "\<lparr>cols = c, rows = r, screen = []\<rparr>"] unfolding e_def
    by (simp add: s)
  have "sockets (shell_step (SockOpen 0) e) = [\<lparr>readyState = OPEN, outbox = [ResizeFrame c r]\<rparr>]"
    using a t by (simp add: ready_def set_ready_def shell_onopen_def ws_send_def Let_def)
  with a b show ?thesis
    unfolding run run2 by simp
qed

lemma resized_sent:
  assumes "truthy tok" and "0 < c'" and "0 < r'"
  shows "sockets (shell_run [Mount, SockOpen 0, Resized (Some (c', r'))] (shell_init tok (Some (c, r)))) =
     [\<lparr>readyState = OPEN, outbox = [ResizeFrame c r, ResizeFrame c' r']\<rparr>]"
proof -
  define s where "s = shell_step (SockOpen 0) (mount (shell_init tok (Some (c, r))))"
  have run: "shell_run [Mount, SockOpen 0, Resized (Some (c', r'))] (shell_init tok (Some (c, r))) =
      shell_step (Resized (Some (c', r'))) s"
    unfolding s_def by (simp only: shell_run_def fold.simps o_apply id_apply shell_step.simps(1))
  have s: "termRef s = Some \<lparr>cols = c, rows = r, screen = []\<rparr>" "observing s"
      "wsRef s = Some 0" "sockets s = [\<lparr>readyState = OPEN, outbox = [ResizeFrame c r]\<rparr>]"
    unfolding s_def mounted_opened_state [OF assms(1)] by simp_all
  show ?thesis
    unfolding run using assms(2,3)
    by (simp add: s Let_def doFit_def guarded_send_def ws_send_def ready_def)
qed

lemma retries_late_open:
  assumes "truthy tok" and "0 < c" and "0 < r"
  shows "sockets (shell_run [Mount, Elapse d1, SockOpen 0, Elapse d2] (shell_init tok (Some (c, r)))) =
     [\<lparr>readyState = OPEN,
       outbox = ResizeFrame c r #
         replicate (length (filter (\<lambda>t. d1 < t \<and> t \<le> d1 + d2) [100, 500, 1500])) (ResizeFrame c r)\<rparr>]"
proof -
  define s where "s = mount (shell_init tok (Some (c, r)))"
  define e where "e = shell_step (Elapse d1) s"
  define p where "p = shell_step (SockOpen 0) e"
  let ?t = "\<lparr>cols = c, rows = r, screen = []\<rparr>"
  have run: "shell_run [Mount, Elapse d1, SockOpen 0, Elapse d2] (shell_init tok (Some (c, r))) =
      shell_step (Elapse d2) p"
    unfolding p_def e_def s_def by (simp only: shell_run_def fold.simps o_apply id_apply shell_step.simps(1))
  have s: "now s = 0" "termRef s = Some ?t" "geometry s = Some (c, r)"
      "wsRef s = Some 0" "sockets s = [\<lparr>readyState = CONNECTING, outbox = []\<rparr>]"
      "timers s = [\<lparr>tid = 1, due = 100, callback = DoFit\<rparr>, \<lparr>tid = 2, due = 500, callback = DoFit\<rparr>,
         \<lparr>tid = 3, due = 1500, callback = DoFit\<rparr>]"
    unfolding s_def mounted_state [OF assms(1)] by simp_all
  have all: "\<forall>t\<in>set (timers s). callback t = DoFit"
    by (simp add: s)
  have closed: "\<not> is_open (sockets s) (wsRef s)"
    by (simp add: s is_open_def ready_def)
  have e: "sockets e = [\<lparr>readyState = CONNECTING, outbox = []\<rparr>]" "wsRef e = Some 0"
      "termRef e = Some ?t" "now e = d1" "geometry e = Some (c, r)"
      "timers e = waiting_timers d1 (timers s)"
    using elapse_closed [OF all closed, of d1 ?t] elapse_frame [OF all, of d1] elapse_timers [OF all, of d1]
    unfolding e_def by (simp_all add: s)
  have p: "sockets p = [\<lparr>readyState = OPEN, outbox = [ResizeFrame c r]\<rparr>]" "wsRef p = Some 0"
      "termRef p = Some ?t" "now p = d1" "geometry p = Some (c, r)"
      "timers p = waiting_timers d1 (timers s)"
    unfolding p_def by (simp_all add: e ready_def set_ready_def shell_onopen_def ws_send_def Let_def)
  have allp: "\<forall>t\<in>set (timers p). callback t = DoFit"
    by (simp add: p s waiting_timers_def)
  have n: "length (filter (\<lambda>t. due t \<le> now p + d2) (timers p)) =
      length (filter (\<lambda>t. d1 < t \<and> t \<le> d1 + d2) [100, 500, 1500])"
    by (simp add: p s waiting_timers_def)
  from elapse_open [OF allp p(3) p(5) assms(2) assms(3) p(2) p(1), of d2] show ?thesis
    unfolding run n by simp
qed

text \<open>
  C6. When the socket opens, the dimensions of the terminal go out on it as a resize
  message. Mounting registers \<^verbatim>\<open>doFit\<close> for 100 ms, 500 ms and 1500 ms after the mount,
  and nothing else, and each of the three timers fires once when its time has come: with
  the socket open, \<open>d\<close> ms after the mount the transport has sent the message of the
  opening and one more resize message for each of the times 100, 500 and 1500 that is at
  most \<open>d\<close>, and the timers still pending are those of the later times. \<^verbatim>\<open>doFit\<close> is also
  the callback of the resize observer, so it runs on every change of the container's
  geometry while the observer is connected; it fits the terminal and, when the transport
  is open, sends the fitted dimensions as one resize message (\<^verbatim>\<open>fit\<close> having returned
  dimensions that are not zero, as a terminal's are). When the transport is not open it
  sends nothing and leaves no timer or other trace behind: the attempt is skipped, not
  queued. So a socket that opens \<open>d1\<close> ms after the mount carries, \<open>d2\<close> ms later, the
  message of its opening and one more for each of the three times that lies after \<open>d1\<close>
  and is at most \<open>d1 + d2\<close>; the fits of the earlier times are never made up for.
\<close>

theorem resize_negotiation:
  "map (\<lambda>t. (due t, callback t)) (timers (mount s)) =
     map (\<lambda>t. (due t, callback t)) (timers s) @
       [(now s + 100, DoFit), (now s + 500, DoFit), (now s + 1500, DoFit)]
   \<and> (termRef s = Some t \<and> ready (sockets s) i = Some CONNECTING \<longrightarrow>
        outbox (sockets (shell_step (SockOpen i) s) ! i) =
          outbox (sockets s ! i) @ [ResizeFrame (cols t) (rows t)])
   \<and> (termRef s = Some t \<and> geometry s = Some (c, r) \<and> 0 < c \<and> 0 < r \<and>
        wsRef s = Some i \<and> ready (sockets s) i = Some OPEN \<longrightarrow>
        sockets (doFit s) =
          (sockets s)[i := (sockets s ! i)\<lparr>outbox := outbox (sockets s ! i) @ [ResizeFrame c r]\<rparr>])
   \<and> (\<not> is_open (sockets s) (wsRef s) \<longrightarrow> sockets (doFit s) = sockets s \<and> timers (doFit s) = timers s)
   \<and> shell_fire DoFit s = doFit s
   \<and> (observing s \<longrightarrow> shell_step (Resized g) s = doFit (s\<lparr>geometry := g\<rparr>))
   \<and> (truthy tok \<and> 0 < c \<and> 0 < r \<longrightarrow>
        sockets (shell_run [Mount, SockOpen 0, Elapse d] (shell_init tok (Some (c, r)))) =
          [\<lparr>readyState = OPEN,
            outbox = ResizeFrame c r #
              replicate (length (filter (\<lambda>t. t \<le> d) [100, 500, 1500])) (ResizeFrame c r)\<rparr>])
   \<and> (truthy tok \<longrightarrow>
        map due (timers (shell_run [Mount, SockOpen 0, Elapse d] (shell_init tok (Some (c, r))))) =
          filter (\<lambda>t. d < t) [100, 500, 1500])
   \<and> (truthy tok \<longrightarrow>
        sockets (shell_run [Mount, Elapse d] (shell_init tok (Some (c, r)))) =
          [\<lparr>readyState = CONNECTING, outbox = []\<rparr>]
        \<and> map due (timers (shell_run [Mount, Elapse d] (shell_init tok (Some (c, r))))) =
            filter (\<lambda>t. d < t) [100, 500, 1500]
        \<and> sockets (shell_run [Mount, Elapse d, SockOpen 0] (shell_init tok (Some (c, r)))) =
            [\<lparr>readyState = OPEN, outbox = [ResizeFrame c r]\<rparr>])
   \<and> (truthy tok \<and> 0 < c' \<and> 0 < r' \<longrightarrow>
        sockets (shell_run [Mount, SockOpen 0, Resized (Some (c', r'))] (shell_init tok (Some (c, r)))) =
          [\<lparr>readyState = OPEN, outbox = [ResizeFrame c r, ResizeFrame c' r']\<rparr>])
   \<and> (truthy tok \<and> 0 < c \<and> 0 < r \<longrightarrow>
        sockets (shell_run [Mount, Elapse d1, SockOpen 0, Elapse d2] (shell_init tok (Some (c, r)))) =
          [\<lparr>readyState = OPEN,
            outbox = ResizeFrame c r #
              replicate (length (filter (\<lambda>t. d1 < t \<and> t \<le> d1 + d2) [100, 500, 1500]))
                (ResizeFrame c r)\<rparr>])"
proof (intro conjI impI)
  show "map (\<lambda>t. (due t, callback t)) (timers (mount s)) =
     map (\<lambda>t. (due t, callback t)) (timers s) @
       [(now s + 100, DoFit), (now s + 500, DoFit), (now s + 1500, DoFit)]"
    by (rule mount_timers)
next
  assume "termRef s = Some t \<and> ready (sockets s) i = Some CONNECTING"
  then show "outbox (sockets (shell_step (SockOpen i) s) ! i) =
          outbox (sockets s ! i) @ [ResizeFrame (cols t) (rows t)]"
    using onopen_resize [of s t i] by blast
next
  assume "termRef s = Some t \<and> geometry s = Some (c, r) \<and> 0 < c \<and> 0 < r \<and>
        wsRef s = Some i \<and> ready (sockets s) i = Some OPEN"
  then show "sockets (doFit s) =
          (sockets s)[i := (sockets s ! i)\<lparr>outbox := outbox (sockets s ! i) @ [ResizeFrame c r]\<rparr>]"
    using doFit_sends [of s t c r i] by blast
next
  assume "\<not> is_open (sockets s) (wsRef s)"
  then show "sockets (doFit s) = sockets s"
    by (rule doFit_skips)
next
  show "timers (doFit s) = timers s"
    by (simp add: doFit_frame)
next
  show "shell_fire DoFit s = doFit s"
    by (simp add: shell_fire_def)
next
  assume "observing s"
  then show "shell_step (Resized g) s = doFit (s\<lparr>geometry := g\<rparr>)"
    by (simp add: Let_def)
next
  assume "truthy tok \<and> 0 < c \<and> 0 < r"
  then show "sockets (shell_run [Mount, SockOpen 0, Elapse d] (shell_init tok (Some (c, r)))) =
          [\<lparr>readyState = OPEN,
            outbox = ResizeFrame c r #
              replicate (length (filter (\<lambda>t. t \<le> d) [100, 500, 1500])) (ResizeFrame c r)\<rparr>]"
    using retries_sent [of tok c r d] by blast
next
  assume "truthy tok"
  then show "map due (timers (shell_run [Mount, SockOpen 0, Elapse d] (shell_init tok (Some (c, r))))) =
          filter (\<lambda>t. d < t) [100, 500, 1500]"
    by (rule retries_left)
next
  assume "truthy tok"
  then show "sockets (shell_run [Mount, Elapse d] (shell_init tok (Some (c, r)))) =
          [\<lparr>readyState = CONNECTING, outbox = []\<rparr>]"
    using retries_skipped [of tok d c r] by blast
next
  assume "truthy tok"
  then show "map due (timers (shell_run [Mount, Elapse d] (shell_init tok (Some (c, r))))) =
            filter (\<lambda>t. d < t) [100, 500, 1500]"
    using retries_skipped [of tok d c r] by blast
next
  assume "truthy tok"
  then show "sockets (shell_run [Mount, Elapse d, SockOpen 0] (shell_init tok (Some (c, r)))) =
            [\<lparr>readyState = OPEN, outbox = [ResizeFrame c r]\<rparr>]"
    using retries_skipped [of tok d c r] by blast
next
  assume "truthy tok \<and> 0 < c' \<and> 0 < r'"
  then show "sockets (shell_run [Mount, SockOpen 0, Resized (Some (c', r'))] (shell_init tok (Some (c, r)))) =
          [\<lparr>readyState = OPEN, outbox = [ResizeFrame c r, ResizeFrame c' r']\<rparr>]"
    using resized_sent [of tok c' r' c r] by blast
next
  assume "truthy tok \<and> 0 < c \<and> 0 < r"
  then show "sockets (shell_run [Mount, Elapse d1, SockOpen 0, Elapse d2] (shell_init tok (Some (c, r)))) =
          [\<lparr>readyState = OPEN,
            outbox = ResizeFrame c r #
              replicate (length (filter (\<lambda>t. d1 < t \<and> t \<le> d1 + d2) [100, 500, 1500]))
                (ResizeFrame c r)\<rparr>]"
    using retries_late_open [of tok c r d1 d2] by blast
qed

text \<open>
  A mount in a layout of 120 by 40 cells: the three timers; the resize message on open;
  a fit while the socket is still connecting, which sends nothing; a fit and a change of
  geometry on the open socket, each sending one resize message. With the socket open,
  the transport has sent one message 99 ms after the mount, two after 100 ms, three
  after 500 ms and four after 1500 ms, when no timer is left. With the socket opening
  only after the 1500 ms, the three fits send nothing and the socket carries the message
  of its opening alone; with the socket opening after 300 ms, it carries three messages
  at 1500 ms, those of its opening and of the fits at 500 ms and 1500 ms.
\<close>

theorem resize_negotiation_witness:
  "map (\<lambda>t. (due t, callback t)) (timers (mount (shell_init (Some ''t'') (Some (120, 40)))))
     = [(100, DoFit), (500, DoFit), (1500, DoFit)]
   \<and> outbox (sockets (shell_step (SockOpen 0) (mount (shell_init (Some ''t'') (Some (120, 40))))) ! 0)
     = [ResizeFrame 120 40]
   \<and> sockets (doFit (mount (shell_init (Some ''t'') (Some (120, 40)))))
     = [\<lparr>readyState = CONNECTING, outbox = []\<rparr>]
   \<and> sockets (doFit mounted_open)
     = [\<lparr>readyState = OPEN, outbox = [ResizeFrame 120 40, ResizeFrame 120 40]\<rparr>]
   \<and> sockets (shell_step (Resized (Some (100, 30))) mounted_open)
     = [\<lparr>readyState = OPEN, outbox = [ResizeFrame 120 40, ResizeFrame 100 30]\<rparr>]
   \<and> sockets (shell_run [Mount, SockOpen 0, Elapse 99] (shell_init (Some ''t'') (Some (120, 40))))
     = [\<lparr>readyState = OPEN, outbox = [ResizeFrame 120 40]\<rparr>]
   \<and> sockets (shell_run [Mount, SockOpen 0, Elapse 100] (shell_init (Some ''t'') (Some (120, 40))))
     = [\<lparr>readyState = OPEN, outbox = [ResizeFrame 120 40, ResizeFrame 120 40]\<rparr>]
   \<and> sockets (shell_run [Mount, SockOpen 0, Elapse 500] (shell_init (Some ''t'') (Some (120, 40))))
     = [\<lparr>readyState = OPEN, outbox = [ResizeFrame 120 40, ResizeFrame 120 40, ResizeFrame 120 40]\<rparr>]
   \<and> sockets (shell_run [Mount, SockOpen 0, Elapse 1500] (shell_init (Some ''t'') (Some (120, 40))))
     = [\<lparr>readyState = OPEN,
         outbox = [ResizeFrame 120 40, ResizeFrame 120 40, ResizeFrame 120 40, ResizeFrame 120 40]\<rparr>]
   \<and> map due (timers (shell_run [Mount, SockOpen 0, Elapse 500] (shell_init (Some ''t'') (Some (120, 40)))))
     = [1500]
   \<and> timers (shell_run [Mount, SockOpen 0, Elapse 1500] (shell_init (Some ''t'') (Some (120, 40)))) = []
   \<and> sockets (shell_run [Mount, Elapse 1500] (shell_init (Some ''t'') (Some (120, 40))))
     = [\<lparr>readyState = CONNECTING, outbox = []\<rparr>]
   \<and> sockets (shell_run [Mount, Elapse 1500, SockOpen 0] (shell_init (Some ''t'') (Some (120, 40))))
     = [\<lparr>readyState = OPEN, outbox = [ResizeFrame 120 40]\<rparr>]
   \<and> sockets (shell_run [Mount, SockOpen 0, Resized (Some (100, 30))] (shell_init (Some ''t'') (Some (120, 40))))
     = [\<lparr>readyState = OPEN, outbox = [ResizeFrame 120 40, ResizeFrame 100 30]\<rparr>]
   \<and> sockets (shell_run [Mount, Elapse 300, SockOpen 0, Elapse 100] (shell_init (Some ''t'') (Some (120, 40))))
     = [\<lparr>readyState = OPEN, outbox = [ResizeFrame 120 40]\<rparr>]
   \<and> sockets (shell_run [Mount, Elapse 300, SockOpen 0, Elapse 1200] (shell_init (Some ''t'') (Some (120, 40))))
     = [\<lparr>readyState = OPEN, outbox = [ResizeFrame 120 40, ResizeFrame 120 40, ResizeFrame 120 40]\<rparr>]"
proof -
  let ?i = "shell_init (Some ''t'') (Some (120, 40))"
  let ?m = "mount ?i"
  let ?t = "\<lparr>cols = 120, rows = 40, screen = []\<rparr>"
  let ?r = "mounted_open\<lparr>geometry := Some (100, 30)\<rparr>"
  have i1: "timers ?i = [] \<and> now ?i = 0"
    by (simp add: shell_init_def)
  have m1: "termRef ?m = Some ?t \<and> ready (sockets ?m) 0 = Some CONNECTING"
    by code_simp
  have m2: "\<not> is_open (sockets ?m) (wsRef ?m)"
    by code_simp
  have m3: "sockets ?m = [\<lparr>readyState = CONNECTING, outbox = []\<rparr>]"
    by code_simp
  have o1: "termRef mounted_open = Some ?t \<and> geometry mounted_open = Some (120, 40) \<and> (0::nat) < 120 \<and>
      (0::nat) < 40 \<and> wsRef mounted_open = Some 0 \<and> ready (sockets mounted_open) 0 = Some OPEN"
    by (simp add: mounted_open_def ready_def)
  have o2: "observing mounted_open"
    by (simp add: mounted_open_def)
  have r1: "termRef ?r = Some ?t \<and> geometry ?r = Some (100, 30) \<and> (0::nat) < 100 \<and>
      (0::nat) < 30 \<and> wsRef ?r = Some 0 \<and> ready (sockets ?r) 0 = Some OPEN"
    by (simp add: mounted_open_def ready_def)
  have o3: "sockets mounted_open = [\<lparr>readyState = OPEN, outbox = [ResizeFrame 120 40]\<rparr>]"
    by (simp add: mounted_open_def)
  have k1: "truthy (Some ''t'') \<and> (0::nat) < 120 \<and> (0::nat) < 40"
    by (simp add: truthy_def)
  have k2: "truthy (Some ''t'')"
    by (simp add: truthy_def)
  have k3: "truthy (Some ''t'') \<and> (0::nat) < 100 \<and> (0::nat) < 30"
    by (simp add: truthy_def)
  note rest = resize_negotiation [THEN conjunct2, THEN conjunct2, THEN conjunct2, THEN conjunct2,
      THEN conjunct2, THEN conjunct2]
  have a: "map (\<lambda>t. (due t, callback t)) (timers ?m) = [(100, DoFit), (500, DoFit), (1500, DoFit)]"
    using resize_negotiation [THEN conjunct1, of ?i] i1 by simp
  have b: "outbox (sockets (shell_step (SockOpen 0) ?m) ! 0) = [ResizeFrame 120 40]"
    using resize_negotiation [THEN conjunct2, THEN conjunct1, THEN mp, OF m1] m3 by simp
  have c: "sockets (doFit ?m) = [\<lparr>readyState = CONNECTING, outbox = []\<rparr>]"
    using resize_negotiation [THEN conjunct2, THEN conjunct2, THEN conjunct2, THEN conjunct1, THEN mp, OF m2]
      m3 by simp
  have d: "sockets (doFit mounted_open)
     = [\<lparr>readyState = OPEN, outbox = [ResizeFrame 120 40, ResizeFrame 120 40]\<rparr>]"
    using resize_negotiation [THEN conjunct2, THEN conjunct2, THEN conjunct1, THEN mp, OF o1] o3 by simp
  have e: "sockets (shell_step (Resized (Some (100, 30))) mounted_open)
     = [\<lparr>readyState = OPEN, outbox = [ResizeFrame 120 40, ResizeFrame 100 30]\<rparr>]"
    using resize_negotiation [THEN conjunct2, THEN conjunct2, THEN conjunct2, THEN conjunct2, THEN conjunct2,
              THEN conjunct1, THEN mp, OF o2, of "Some (100, 30)"]
      resize_negotiation [THEN conjunct2, THEN conjunct2, THEN conjunct1, THEN mp, OF r1] o3
    by simp
  have f: "sockets (shell_run [Mount, SockOpen 0, Elapse 99] ?i)
       = [\<lparr>readyState = OPEN, outbox = [ResizeFrame 120 40]\<rparr>]
     \<and> sockets (shell_run [Mount, SockOpen 0, Elapse 100] ?i)
       = [\<lparr>readyState = OPEN, outbox = [ResizeFrame 120 40, ResizeFrame 120 40]\<rparr>]
     \<and> sockets (shell_run [Mount, SockOpen 0, Elapse 500] ?i)
       = [\<lparr>readyState = OPEN, outbox = [ResizeFrame 120 40, ResizeFrame 120 40, ResizeFrame 120 40]\<rparr>]
     \<and> sockets (shell_run [Mount, SockOpen 0, Elapse 1500] ?i)
       = [\<lparr>readyState = OPEN,
           outbox = [ResizeFrame 120 40, ResizeFrame 120 40, ResizeFrame 120 40, ResizeFrame 120 40]\<rparr>]"
    using rest [THEN conjunct1, THEN mp, OF k1, of 99] rest [THEN conjunct1, THEN mp, OF k1, of 100]
      rest [THEN conjunct1, THEN mp, OF k1, of 500] rest [THEN conjunct1, THEN mp, OF k1, of 1500]
    by simp
  have g: "map due (timers (shell_run [Mount, SockOpen 0, Elapse 500] ?i)) = [1500]
     \<and> timers (shell_run [Mount, SockOpen 0, Elapse 1500] ?i) = []"
    using rest [THEN conjunct2, THEN conjunct1, THEN mp, OF k2, of 500 120 40]
      rest [THEN conjunct2, THEN conjunct1, THEN mp, OF k2, of 1500 120 40]
    by simp
  have h: "sockets (shell_run [Mount, Elapse 1500] ?i) = [\<lparr>readyState = CONNECTING, outbox = []\<rparr>]
     \<and> sockets (shell_run [Mount, Elapse 1500, SockOpen 0] ?i)
       = [\<lparr>readyState = OPEN, outbox = [ResizeFrame 120 40]\<rparr>]"
    using rest [THEN conjunct2, THEN conjunct2, THEN conjunct1, THEN mp, OF k2, of 1500 120 40]
    by simp
  have j: "sockets (shell_run [Mount, SockOpen 0, Resized (Some (100, 30))] ?i)
     = [\<lparr>readyState = OPEN, outbox = [ResizeFrame 120 40, ResizeFrame 100 30]\<rparr>]"
    using rest [THEN conjunct2, THEN conjunct2, THEN conjunct2, THEN conjunct1, THEN mp, OF k3, of 120 40]
    by simp
  have l: "sockets (shell_run [Mount, Elapse 300, SockOpen 0, Elapse 100] ?i)
       = [\<lparr>readyState = OPEN, outbox = [ResizeFrame 120 40]\<rparr>]
     \<and> sockets (shell_run [Mount, Elapse 300, SockOpen 0, Elapse 1200] ?i)
       = [\<lparr>readyState = OPEN, outbox = [ResizeFrame 120 40, ResizeFrame 120 40, ResizeFrame 120 40]\<rparr>]"
    using rest [THEN conjunct2, THEN conjunct2, THEN conjunct2, THEN conjunct2, THEN mp, OF k1, of 300 100]
      rest [THEN conjunct2, THEN conjunct2, THEN conjunct2, THEN conjunct2, THEN mp, OF k1, of 300 1200]
    by simp
  from a b c d e f g h j l show ?thesis by simp
qed

section \<open>Reconnecting and disposal\<close>

text \<open>
  Both transports schedule the reconnect for exactly 3000 ms after the close event. The
  shell keeps the timer's id for its cleanup; the chat hook's \<^verbatim>\<open>disconnect\<close> leaves every
  pending timer where it is.
\<close>

lemma reconnect_scheduled:
  "timers (onclose c) =
     timers c @ [\<lparr>tid = Suc (timer_seq c), due = now c + 3000, callback = Reconnect\<rparr>]
   \<and> timers (shell_onclose s) =
       timers s @ [\<lparr>tid = Suc (timer_seq s), due = now s + 3000, callback = ShellConnect\<rparr>]
   \<and> reconnectTimer (shell_onclose s) = Some (Suc (timer_seq s))
   \<and> timers (disconnect c) = timers c"
  by (auto simp: onclose_def shell_onclose_def disconnect_def setTimeout_def term_write_def
      RECONNECT_DELAY_def Let_def split: option.splits)

text \<open>
  C2, evaluated on both transports. On the chat transport a close event at time 0
  schedules the reconnect for 3000 ms; \<^verbatim>\<open>disconnect\<close> at 1000 ms leaves that timer
  pending, and at 3000 ms \<^verbatim>\<open>connect\<close> runs and opens a second socket, to which \<^verbatim>\<open>wsRef\<close>
  then points. A \<^verbatim>\<open>disconnect\<close> of an open socket ends the same way, through the close
  event it causes. On the shell transport a close event at 1500 ms schedules the
  reconnect for 4500 ms; unmounting at 2500 ms clears it, and no socket is opened after.
\<close>

theorem reconnect_after_disposal:
  "map due (timers (chat_run [CallConnect, WsOpen 0, WsClose 0, Advance 1000, CallDisconnect]
      (chat_init (Some ''t'')))) = [3000]
   \<and> map readyState (sockets (chat_run [CallConnect, WsOpen 0, WsClose 0, Advance 1000, CallDisconnect]
      (chat_init (Some ''t'')))) = [CLOSED]
   \<and> map readyState (sockets (chat_run [CallConnect, WsOpen 0, WsClose 0, Advance 1000, CallDisconnect, Advance 2000]
      (chat_init (Some ''t'')))) = [CLOSED, CONNECTING]
   \<and> wsRef (chat_run [CallConnect, WsOpen 0, WsClose 0, Advance 1000, CallDisconnect, Advance 2000]
      (chat_init (Some ''t''))) = Some 1
   \<and> map readyState (sockets (chat_run [CallConnect, WsOpen 0, CallDisconnect, WsClose 0, Advance 3000]
      (chat_init (Some ''t'')))) = [CLOSED, CONNECTING]
   \<and> map due (timers (shell_run [Elapse 1500, SockClose 0, Elapse 1000] mounted_open)) = [4500]
   \<and> timers (shell_run [Elapse 1500, SockClose 0, Elapse 1000, Unmount] mounted_open) = []
   \<and> map readyState (sockets (shell_run [Elapse 1500, SockClose 0, Elapse 1000, Unmount, Elapse 2000]
        mounted_open)) = [CLOSED]"
proof -
  have "map due (timers (shell_run [Elapse 1500, SockClose 0, Elapse 1000] mounted_open)) = [4500]
   \<and> timers (shell_run [Elapse 1500, SockClose 0, Elapse 1000, Unmount] mounted_open) = []
   \<and> map readyState (sockets (shell_run [Elapse 1500, SockClose 0, Elapse 1000, Unmount, Elapse 2000]
        mounted_open)) = [CLOSED]"
    by (simp add: shell_defs mounted_open_def Let_def)
  then show ?thesis
    by (simp add: run_defs Let_def)
qed

lemma length_set_ready: "length (set_ready i r ss) = length ss"
  by (simp add: set_ready_def)

lemma length_ws_close: "length (ws_close i ss) = length ss"
  by (simp add: ws_close_def length_set_ready)

lemma length_ws_send: "length (ws_send i f ss) = length ss"
  by (simp add: ws_send_def)

lemma guarded_send_frame:
  "termRef (guarded_send f s) = termRef s \<and> length (sockets (guarded_send f s)) = length (sockets s)"
  by (auto simp: guarded_send_def length_ws_send split: option.splits)

lemma fold_shell_fire_unmounted:
  "termRef s = None \<Longrightarrow> fold shell_fire cbs s = s"
  by (induction cbs) (auto simp: shell_fire_def doFit_def shell_connect_def split: shell_callback.splits)

lemma fold_clearTimeout_frame:
  "termRef (fold clearTimeout is s) = termRef s \<and> sockets (fold clearTimeout is s) = sockets s
   \<and> wsRef (fold clearTimeout is s) = wsRef s \<and> reconnectTimer (fold clearTimeout is s) = reconnectTimer s"
  by (induction "is" arbitrary: s) (auto simp: clearTimeout_def)

lemma unmount_frame:
  "termRef (unmount s) = None \<and> length (sockets (unmount s)) = length (sockets s)"
  by (auto simp: unmount_def Let_def clearTimeout_def fold_clearTimeout_frame length_ws_close
      split: option.splits)

lemma unmounted_step:
  "termRef s = None \<Longrightarrow> ev \<noteq> Mount \<Longrightarrow>
   termRef (shell_step ev s) = None \<and> length (sockets (shell_step ev s)) = length (sockets s)"
proof (cases ev)
  case Unmount
  assume "termRef s = None"
  then show ?thesis using Unmount unmount_frame [of s] by simp
next
  case (Elapse d)
  assume "termRef s = None"
  then show ?thesis using Elapse
    by (simp add: Let_def fold_shell_fire_unmounted)
next
  case (SockClose i)
  assume "termRef s = None"
  then show ?thesis using SockClose
    by (simp add: shell_onclose_def term_write_def setTimeout_def Let_def length_set_ready)
qed (auto simp: shell_onopen_def shell_onmessage_def shell_onerror_def term_write_def doFit_def
       onData_def onBinary_def sendCommand_def sendKey_def handleMobileSend_def
       shell_upload_started_def shell_upload_settled_def guarded_send_frame Let_def
       length_set_ready length_ws_close length_ws_send
     split: option.splits upload_outcome.splits)

lemma unmounted_run:
  "termRef s = None \<Longrightarrow> Mount \<notin> set evs \<Longrightarrow>
   termRef (shell_run evs s) = None \<and> length (sockets (shell_run evs s)) = length (sockets s)"
  unfolding shell_run_def
proof (induction evs arbitrary: s)
  case Nil
  then show ?case by simp
next
  case (Cons ev evs)
  then have "termRef (shell_step ev s) = None \<and> length (sockets (shell_step ev s)) = length (sockets s)"
    using unmounted_step [of s ev] by auto
  then show ?case using Cons by simp
qed

text \<open>
  The shell transport after its disposal: whatever happens to the unmounted component
  short of a new mount (late close events of its sockets and the reconnect timers they
  schedule among them), no socket is ever created again.
\<close>

theorem shell_no_connect_after_unmount:
  "Mount \<notin> set evs \<longrightarrow> length (sockets (shell_run evs (unmount s))) = length (sockets s)"
  using unmounted_run [of "unmount s" evs] unmount_frame [of s] by simp

text \<open>
  Unmounting with the socket open: the close event that follows schedules a reconnect,
  its timer fires, and still there is one socket only.
\<close>

theorem shell_no_connect_after_unmount_witness:
  "Mount \<notin> set [SockClose 0, Elapse 3000]
   \<and> length (sockets (shell_run [SockClose 0, Elapse 3000] (unmount mounted_open))) = 1"
proof -
  have a: "Mount \<notin> set [SockClose 0, Elapse 3000]"
    by simp
  have b: "length (sockets mounted_open) = 1"
    by (simp add: mounted_open_def)
  show ?thesis
    using a b shell_no_connect_after_unmount [THEN mp, OF a, of mounted_open] by simp
qed

end
